theory Spec2Isabelle
  imports Main
begin

section \<open>The chat component of \<^verbatim>\<open>src/chat.js\<close>\<close>

text \<open>
  The repository is one React function component, \<^verbatim>\<open>App\<close>. Its six state variables
  are the first six fields of the record \<open>state\<close> below. The remaining fields are
  what the component holds outside its state variables: the cleanup functions its effects
  returned, the dependency array of the feed effect at its last run, and the
  collaborators' side of the calls the component made (the listeners it registered, the
  requests it issued, the console).

  JavaScript strings are modelled by \<open>string\<close>, one \<open>char\<close> per code unit, so the model
  covers strings whose code units are below 256.

  Left out: the third effect (lines 82 to 84), which only scrolls the view, the call
  \<^verbatim>\<open>e.preventDefault()\<close> of the submit handler, and the fixed markup around the
  message area.
\<close>

subsection \<open>Document values and messages\<close>

text \<open>
  A field of a Firestore document as the snapshot callback receives it. A field that is
  absent reads as \<^verbatim>\<open>undefined\<close>: that is \<open>None\<close> in a lookup. \<open>FOther\<close> stands for the
  remaining object values (arrays, maps, bytes, references), none of which is falsy or
  has a \<^verbatim>\<open>substring\<close> or \<^verbatim>\<open>toDate\<close> method.
\<close>

datatype fsval = FNull | FBool bool | FNum int | FStr string | FTimestamp nat | FOther

type_synonym message = "string \<rightharpoonup> fsval"

record snapshot_doc =
  doc_id :: string
  doc_data :: "string \<rightharpoonup> fsval"

text \<open>Line 68: \<^verbatim>\<open>({ id: doc.id, ...doc.data() })\<close>. The spread comes second, so a
  document field named \<^verbatim>\<open>id\<close> overrides the document id.\<close>

definition to_message :: "snapshot_doc \<Rightarrow> message" where
  "to_message d = [''id'' \<mapsto> FStr (doc_id d)] ++ doc_data d"

text \<open>The user object of the auth provider. \<open>user_ref\<close> is the identity of the object:
  React compares the dependencies of an effect with \<^verbatim>\<open>Object.is\<close>, which the model
  renders as equality of the whole record.\<close>

record firebase_user =
  user_ref :: nat
  uid :: string

datatype firestore = Firestore
datatype firebase_auth = FirebaseAuth

subsection \<open>Requests to the collaborators\<close>

text \<open>A field of a document to be written: a literal value, or the sentinel returned by
  \<^verbatim>\<open>serverTimestamp()\<close>.\<close>

datatype field_value = Lit fsval | ServerTimestamp

datatype request =
    SignInWithCustomToken string
  | SignInAnonymously
  | AddDoc string "(string \<times> field_value) list"

record feed_query =
  q_path :: string
  q_order_field :: string
  q_ascending :: bool

text \<open>The module-level constants of lines 7 to 9, and the locale-dependent
  \<^verbatim>\<open>toLocaleTimeString\<close> of the browser, taken as parameters.\<close>

record env =
  appId :: string
  initialAuthToken :: "string option"
  toLocaleTimeString :: "nat \<Rightarrow> string"

definition messages_path :: "env \<Rightarrow> string" where
  "messages_path e = ''artifacts/'' @ appId e @ ''/public/data/messages''"

definition messages_query :: "env \<Rightarrow> feed_query" where
  "messages_query e =
     \<lparr>q_path = messages_path e, q_order_field = ''timestamp'', q_ascending = True\<rparr>"

subsection \<open>The state\<close>

datatype phase = NotMounted | Mounted | Unmounted

record state =
  messages :: "message list"
  newMessage :: string
  user :: "firebase_user option"
  db :: "firestore option"
  auth :: "firebase_auth option"
  isAuthReady :: bool
  phase :: phase
  auth_cleanup :: bool
  feed_deps :: "(firestore option \<times> firebase_user option \<times> bool) option"
  feed_cleanup :: "nat option"
  auth_observer :: bool
  subs :: "(nat \<times> feed_query) list"
  next_sub :: nat
  requests :: "request list"
  settled :: "nat list"
  console :: "(string \<times> string) list"

text \<open>
  \<^item> \<open>phase\<close>: whether React has mounted the component, and whether it has unmounted it.
  \<^item> \<open>auth_cleanup\<close>: the init effect returned its cleanup (line 52).
  \<^item> \<open>feed_deps\<close>: the array \<^verbatim>\<open>[db, user, isAuthReady]\<close> at the last run of the feed
    effect; \<open>None\<close> before its first run.
  \<^item> \<open>feed_cleanup\<close>: the cleanup the feed effect returned at its last run (line 77),
    holding the \<^verbatim>\<open>unsubscribe\<close> of the subscription it names.
  \<^item> \<open>auth_observer\<close>: the auth provider holds the callback of line 45.
  \<^item> \<open>subs\<close>: the subscriptions the feed provider holds for this component, each with
    the query it was opened on; \<open>next_sub\<close> numbers them, so that two calls of
    \<^verbatim>\<open>onSnapshot\<close> never give the same subscription.
  \<^item> \<open>requests\<close>: the promises the component started, in order; \<open>settled\<close>: the indices
    of those that have resolved or rejected.
  \<^item> \<open>console\<close>: the calls of \<^verbatim>\<open>console.error\<close>, each a message and the error.
\<close>

definition init_state :: state where
  "init_state =
     \<lparr>messages = [], newMessage = [], user = None, db = None, auth = None,
      isAuthReady = False, phase = NotMounted, auth_cleanup = False, feed_deps = None,
      feed_cleanup = None, auth_observer = False, subs = [], next_sub = 0,
      requests = [], settled = [], console = []\<rparr>"

definition console_error :: "string \<Rightarrow> string \<Rightarrow> state \<Rightarrow> state" where
  "console_error msg err st = st\<lparr>console := console st @ [(msg, err)]\<rparr>"

subsection \<open>The feed effect (lines 59 to 79)\<close>

text \<open>The body of the effect: when all three dependencies are truthy it opens a
  subscription on the ordered query and returns the cleanup that closes it; otherwise
  it returns nothing.\<close>

definition feed_effect :: "env \<Rightarrow> state \<Rightarrow> state" where
  "feed_effect e st =
     (if db st \<noteq> None \<and> user st \<noteq> None \<and> isAuthReady st
      then st\<lparr>subs := subs st @ [(next_sub st, messages_query e)],
              next_sub := Suc (next_sub st),
              feed_cleanup := Some (next_sub st)\<rparr>
      else st\<lparr>feed_cleanup := None\<rparr>)"

text \<open>Running the cleanup of the last run, \<^verbatim>\<open>() => unsubscribe()\<close>, when there is one.\<close>

definition run_feed_cleanup :: "state \<Rightarrow> state" where
  "run_feed_cleanup st =
     (case feed_cleanup st of
        None \<Rightarrow> st
      | Some sid \<Rightarrow> st\<lparr>subs := filter (\<lambda>s. fst s \<noteq> sid) (subs st), feed_cleanup := None\<rparr>)"

text \<open>What React does with the feed effect after a render: when the dependency array
  differs from the one of the last run, the old cleanup runs and then the body.\<close>

definition commit :: "env \<Rightarrow> state \<Rightarrow> state" where
  "commit e st =
     (let d = (db st, user st, isAuthReady st)
      in if feed_deps st = Some d then st
         else (feed_effect e (run_feed_cleanup st))\<lparr>feed_deps := Some d\<rparr>)"

text \<open>A batch of state updates followed by the render they cause. React drops the
  updates of a component that is not mounted.\<close>

definition update :: "env \<Rightarrow> (state \<Rightarrow> state) \<Rightarrow> state \<Rightarrow> state" where
  "update e f st = (if phase st = Mounted then commit e (f st) else st)"

subsection \<open>The init effect (lines 22 to 56)\<close>

datatype init_stage = AtInitializeApp | AtGetFirestore | AtGetAuth | AtOnAuthStateChanged

datatype init_outcome = InitOk | InitThrows init_stage string

text \<open>Lines 34 to 38: a truthy token selects the custom-token sign-in.\<close>

definition signIn_request :: "env \<Rightarrow> request" where
  "signIn_request e =
     (case initialAuthToken e of
        None \<Rightarrow> SignInAnonymously
      | Some t \<Rightarrow> if t = [] then SignInAnonymously else SignInWithCustomToken t)"

text \<open>The effect runs to the call that throws, if one does; the outer \<^verbatim>\<open>catch\<close> logs.
  \<^verbatim>\<open>setDb\<close> and \<^verbatim>\<open>setAuth\<close> come after the three constructors and before the
  registration of the observer.\<close>

definition init_effect :: "env \<Rightarrow> init_outcome \<Rightarrow> state \<Rightarrow> state" where
  "init_effect e out st =
     (case out of
        InitThrows AtOnAuthStateChanged err \<Rightarrow>
          console_error ''Failed to initialize Firebase:'' err
            (st\<lparr>db := Some Firestore, auth := Some FirebaseAuth\<rparr>)
      | InitThrows _ err \<Rightarrow> console_error ''Failed to initialize Firebase:'' err st
      | InitOk \<Rightarrow>
          st\<lparr>db := Some Firestore, auth := Some FirebaseAuth, auth_observer := True,
             requests := requests st @ [signIn_request e], auth_cleanup := True\<rparr>)"

subsection \<open>The composer (lines 87 to 101)\<close>

text \<open>\<^verbatim>\<open>String.prototype.trim\<close> on code units below 256: tab, line feed, vertical tab,
  form feed, carriage return, space and no-break space are stripped at both ends.\<close>

definition is_space :: "char \<Rightarrow> bool" where
  "is_space c \<longleftrightarrow>
     c \<in> set [CHR 0x09, CHR 0x0A, CHR 0x0B, CHR 0x0C, CHR 0x0D, CHR 0x20, CHR 0xA0]"

definition trim :: "string \<Rightarrow> string" where
  "trim s = rev (dropWhile is_space (rev (dropWhile is_space s)))"

text \<open>The handler up to its \<^verbatim>\<open>await\<close>: the guard of line 89, then the call of
  \<^verbatim>\<open>addDoc\<close>.\<close>

definition handleSendMessage :: "env \<Rightarrow> state \<Rightarrow> state" where
  "handleSendMessage e st =
     (if trim (newMessage st) = [] \<or> db st = None then st
      else case user st of
        None \<Rightarrow> st
      | Some u \<Rightarrow>
          st\<lparr>requests := requests st @
               [AddDoc (messages_path e)
                  [(''text'', Lit (FStr (newMessage st))),
                   (''userId'', Lit (FStr (uid u))),
                   (''timestamp'', ServerTimestamp)]]\<rparr>)"

datatype outcome = Fulfilled | Rejected string

text \<open>The rest of an \<^verbatim>\<open>async\<close> function once its promise settles: of
  \<^verbatim>\<open>handleSendMessage\<close> (lines 97 to 99) and of \<^verbatim>\<open>signIn\<close> (lines 39 to 41).\<close>

definition continue :: "env \<Rightarrow> request \<Rightarrow> outcome \<Rightarrow> state \<Rightarrow> state" where
  "continue e r out st =
     (case (r, out) of
        (AddDoc p fs, Fulfilled) \<Rightarrow> update e (\<lambda>s. s\<lparr>newMessage := []\<rparr>) st
      | (AddDoc p fs, Rejected err) \<Rightarrow> console_error ''Error sending message:'' err st
      | (_, Fulfilled) \<Rightarrow> st
      | (_, Rejected err) \<Rightarrow> console_error ''Firebase authentication error:'' err st)"

subsection \<open>Events\<close>

text \<open>
  Everything that happens to the component is one of these events. A callback runs only
  while the collaborator holds it: the auth observer while it is registered, a snapshot
  or an error of subscription \<open>sid\<close> while \<open>sid\<close> is among \<open>subs\<close>, a promise once, the
  form's events while the form is rendered. An event, the render it causes and the
  effects of that render are one step. React may also handle several callbacks of one
  tick with a single render and a single pass over the effects; the model takes every
  callback with a render and an effect pass of its own, and \<open>render\<close> is stated on
  states, whichever way they were reached.

  Mounting runs both effects on the first render, where the feed effect sees the initial
  values and opens nothing, and then renders again for the state the init effect has
  set: the two \<open>commit\<close>s of the first equation of \<open>step\<close>. An exception thrown
  while rendering is a result of \<open>render\<close> below and is not followed further.
\<close>

datatype event =
    Mount init_outcome
  | Unmount
  | AuthStateChanged "firebase_user option"
  | Snapshot nat "snapshot_doc list"
  | SnapshotError nat string
  | Change string
  | Submit
  | Settled nat outcome

text \<open>Modelled from the spec: the Document Feed Provider of section 6, which is
  \<^verbatim>\<open>onSnapshot\<close> of the firebase/firestore package; its code is not in the repository.
  Subscribing returns an unsubscribe handle and the provider delivers to a subscription
  from then until the handle is called: \<open>feed_effect\<close> adds the subscription to \<open>subs\<close>,
  \<open>run_feed_cleanup\<close> takes it out, and the callbacks of subscription \<open>sid\<close> run only
  while \<open>sid\<close> is in the list.\<close>

definition listening :: "state \<Rightarrow> nat \<Rightarrow> bool" where
  "listening st sid \<longleftrightarrow> sid \<in> fst ` set (subs st)"

definition form_rendered :: "state \<Rightarrow> bool" where
  "form_rendered st \<longleftrightarrow> phase st = Mounted \<and> isAuthReady st"

definition unmount :: "state \<Rightarrow> state" where
  "unmount st =
     (run_feed_cleanup st)
       \<lparr>phase := Unmounted,
        auth_observer := (if auth_cleanup st then False else auth_observer st),
        auth_cleanup := False\<rparr>"

fun step :: "env \<Rightarrow> event \<Rightarrow> state \<Rightarrow> state" where
  "step e (Mount out) st =
     (if phase st = NotMounted
      then commit e (init_effect e out (commit e (st\<lparr>phase := Mounted\<rparr>)))
      else st)"
| "step e Unmount st = (if phase st = Mounted then unmount st else st)"
| "step e (AuthStateChanged cu) st =
     (if auth_observer st then update e (\<lambda>s. s\<lparr>user := cu, isAuthReady := True\<rparr>) st
      else st)"
| "step e (Snapshot sid docs) st =
     (if listening st sid
      then update e (\<lambda>s. s\<lparr>messages := map to_message docs\<rparr>) st
      else st)"
| "step e (SnapshotError sid err) st =
     (if listening st sid then console_error ''Error fetching messages:'' err st
      else st)"
| "step e (Change v) st =
     (if form_rendered st then update e (\<lambda>s. s\<lparr>newMessage := v\<rparr>) st else st)"
| "step e Submit st = (if form_rendered st then handleSendMessage e st else st)"
| "step e (Settled i out) st =
     (if i < length (requests st) \<and> i \<notin> set (settled st)
      then continue e (requests st ! i) out (st\<lparr>settled := i # settled st\<rparr>)
      else st)"

definition run :: "env \<Rightarrow> event list \<Rightarrow> state \<Rightarrow> state" where
  "run e es st = foldl (\<lambda>s ev. step e ev s) st es"

subsection \<open>The presenter (lines 104 to 171)\<close>

datatype js_error = TypeError

text \<open>\<^verbatim>\<open>msg.userId === user?.uid\<close>: the right side is \<^verbatim>\<open>undefined\<close> for a null user
  and the uid string otherwise, and strict equality with either is equality of values.\<close>

definition is_self :: "firebase_user option \<Rightarrow> message \<Rightarrow> bool" where
  "is_self u m \<longleftrightarrow> m ''userId'' = map_option (\<lambda>x. FStr (uid x)) u"

text \<open>Line 143. \<^verbatim>\<open>substring\<close> exists on strings only.\<close>

definition sender_label :: "firebase_user option \<Rightarrow> message \<Rightarrow> js_error + string" where
  "sender_label u m =
     (if is_self u m then Inr ''You''
      else case m ''userId'' of
        Some (FStr s) \<Rightarrow> Inr (''User: '' @ take 8 s @ ''...'')
      | _ \<Rightarrow> Inl TypeError)"

definition truthy :: "fsval option \<Rightarrow> bool" where
  "truthy v =
     (case v of
        None \<Rightarrow> False
      | Some FNull \<Rightarrow> False
      | Some (FBool b) \<Rightarrow> b
      | Some (FNum n) \<Rightarrow> n \<noteq> 0
      | Some (FStr s) \<Rightarrow> s \<noteq> []
      | Some _ \<Rightarrow> True)"

text \<open>Line 144. A falsy timestamp is itself the child: React shows nothing for it,
  except the number zero. \<^verbatim>\<open>toDate\<close> exists on timestamps only.\<close>

definition time_suffix :: "env \<Rightarrow> message \<Rightarrow> js_error + string" where
  "time_suffix e m =
     (let t = m ''timestamp''
      in if \<not> truthy t then Inr (if t = Some (FNum 0) then ''0'' else [])
         else case t of
           Some (FTimestamp n) \<Rightarrow> Inr ('' - '' @ toLocaleTimeString e n)
         | _ \<Rightarrow> Inl TypeError)"

record bubble =
  b_key :: "fsval option"
  row_class :: string
  bubble_class :: string
  b_text :: "fsval option"
  b_label :: string

definition render_message :: "env \<Rightarrow> firebase_user option \<Rightarrow> message \<Rightarrow> js_error + bubble" where
  "render_message e u m =
     (case sender_label u m of
        Inl err \<Rightarrow> Inl err
      | Inr l \<Rightarrow>
          (case time_suffix e m of
             Inl err \<Rightarrow> Inl err
           | Inr t \<Rightarrow>
               Inr \<lparr>b_key = m ''id'',
                    row_class = ''flex '' @ (if is_self u m then ''justify-end'' else ''justify-start''),
                    bubble_class = ''max-w-[70%] p-3 rounded-xl shadow-sm '' @
                      (if is_self u m then ''bg-blue-500 text-white rounded-br-none''
                       else ''bg-gray-300 text-gray-800 rounded-bl-none''),
                    b_text = m ''text'',
                    b_label = l @ t\<rparr>))"

fun render_messages :: "env \<Rightarrow> firebase_user option \<Rightarrow> message list \<Rightarrow> js_error + bubble list" where
  "render_messages e u [] = Inr []"
| "render_messages e u (m # ms) =
     (case render_message e u m of
        Inl err \<Rightarrow> Inl err
      | Inr b \<Rightarrow>
          (case render_messages e u ms of
             Inl err \<Rightarrow> Inl err
           | Inr bs \<Rightarrow> Inr (b # bs)))"

datatype body = Placeholder string | Bubbles "bubble list"

datatype view = LoadingScreen string | ChatScreen string body string

text \<open>Line 121: \<^verbatim>\<open>user?.uid || 'N/A'\<close>.\<close>

definition header_uid :: "state \<Rightarrow> string" where
  "header_uid st =
     (case user st of
        None \<Rightarrow> ''N/A''
      | Some u \<Rightarrow> if uid u = [] then ''N/A'' else uid u)"

text \<open>The value \<^verbatim>\<open>App\<close> returns: the loading screen, or the chat screen with the
  header's uid, the message area and the value of the input. An exception thrown while
  the message area is built is the result \<open>Inl\<close>.\<close>

definition render :: "env \<Rightarrow> state \<Rightarrow> js_error + view" where
  "render e st =
     (if \<not> isAuthReady st then Inr (LoadingScreen ''Loading chat...'')
      else if messages st = []
      then Inr (ChatScreen (header_uid st)
                  (Placeholder ''No messages yet. Start chatting!'') (newMessage st))
      else case render_messages e (user st) (messages st) of
        Inl err \<Rightarrow> Inl err
      | Inr bs \<Rightarrow> Inr (ChatScreen (header_uid st) (Bubbles bs) (newMessage st)))"

subsection \<open>Consistency of the effect bookkeeping\<close>

text \<open>What holds of every state the component reaches: before mounting nothing has
  happened; while mounted the feed effect has run on the current dependencies, and its
  cleanup holds the one open subscription, which exists exactly when the three
  dependencies are truthy; after unmounting no listener is left; subscriptions are
  numbered below \<open>next_sub\<close>; an identity is only ever set together with readiness;
  only started promises settle; the auth observer is registered only while mounted.\<close>

definition consistent :: "env \<Rightarrow> state \<Rightarrow> bool" where
  "consistent e st \<longleftrightarrow>
     (phase st = NotMounted \<longrightarrow> st = init_state) \<and>
     (phase st = Mounted \<longrightarrow> feed_deps st = Some (db st, user st, isAuthReady st)) \<and>
     subs st = (case feed_cleanup st of None \<Rightarrow> [] | Some sid \<Rightarrow> [(sid, messages_query e)]) \<and>
     (phase st = Mounted \<longrightarrow>
        (feed_cleanup st \<noteq> None \<longleftrightarrow> db st \<noteq> None \<and> user st \<noteq> None \<and> isAuthReady st)) \<and>
     (phase st = Unmounted \<longrightarrow> feed_cleanup st = None \<and> \<not> auth_observer st) \<and>
     (\<forall>sid. feed_cleanup st = Some sid \<longrightarrow> sid < next_sub st) \<and>
     (user st \<noteq> None \<longrightarrow> isAuthReady st) \<and>
     (\<forall>i \<in> set (settled st). i < length (requests st)) \<and>
     (auth_observer st \<longrightarrow> phase st = Mounted \<and> auth_cleanup st)"

subsection \<open>The most recently delivered snapshot\<close>

text \<open>The words of the specification about the message list, as a function of their
  own: \<open>latest_delivered\<close> walks a sequence of events from a state and keeps the
  documents of the last snapshot that was delivered on a subscription open at that
  moment; \<open>shown\<close> is the list the specification expects for it, the empty list when
  nothing has been delivered.\<close>

fun latest_delivered ::
  "env \<Rightarrow> state \<Rightarrow> event list \<Rightarrow> snapshot_doc list option \<Rightarrow> snapshot_doc list option" where
  "latest_delivered e st [] acc = acc"
| "latest_delivered e st (ev # es) acc =
     latest_delivered e (step e ev st) es
       (case ev of
          Snapshot sid docs \<Rightarrow> if listening st sid then Some docs else acc
        | _ \<Rightarrow> acc)"

definition shown :: "snapshot_doc list option \<Rightarrow> message list" where
  "shown acc = (case acc of None \<Rightarrow> [] | Some docs \<Rightarrow> map to_message docs)"

subsection \<open>A sample session\<close>

text \<open>The scenarios of the specification, under the default application id: identity
  \<^verbatim>\<open>u1\<close> signs in anonymously, types \<^verbatim>\<open>hello\<close> and submits; the feed delivers
  the message \<^verbatim>\<open>m1\<close> of \<^verbatim>\<open>u1\<close>, a message of another sender, a document with
  no \<^verbatim>\<open>userId\<close>; \<^verbatim>\<open>u1\<close> signs out; a sign-in is refused.\<close>

definition demo_env :: env where
  "demo_env = \<lparr>appId = ''default-app-id'', initialAuthToken = None,
                toLocaleTimeString = (\<lambda>t. ''12:00:00'')\<rparr>"

definition u1 :: firebase_user where
  "u1 = \<lparr>user_ref = 1, uid = ''u1''\<rparr>"

definition u2 :: firebase_user where
  "u2 = \<lparr>user_ref = 2, uid = ''u2''\<rparr>"

definition m1_doc :: snapshot_doc where
  "m1_doc = \<lparr>doc_id = ''m1'',
              doc_data = [''text'' \<mapsto> FStr ''hello'', ''userId'' \<mapsto> FStr ''u1'',
                          ''timestamp'' \<mapsto> FTimestamp 1]\<rparr>"

definition m2_doc :: snapshot_doc where
  "m2_doc = \<lparr>doc_id = ''m2'',
              doc_data = [''text'' \<mapsto> FStr ''hi'', ''userId'' \<mapsto> FStr ''anonymous-42'']\<rparr>"

definition m3_doc :: snapshot_doc where
  "m3_doc = \<lparr>doc_id = ''m3'', doc_data = [''text'' \<mapsto> FStr ''hi'']\<rparr>"

definition signed_in :: state where
  "signed_in = run demo_env [Mount InitOk, AuthStateChanged (Some u1)] init_state"

definition hello_sent :: state where
  "hello_sent =
     run demo_env [Mount InitOk, AuthStateChanged (Some u1), Change ''hello'', Submit] init_state"

definition hello_shown :: state where
  "hello_shown =
     run demo_env [Mount InitOk, AuthStateChanged (Some u1), Snapshot 0 [m1_doc, m2_doc]] init_state"

definition signed_out :: state where
  "signed_out =
     run demo_env [Mount InitOk, AuthStateChanged (Some u1), AuthStateChanged None] init_state"

definition two_snapshots :: "event list" where
  "two_snapshots =
     [Mount InitOk, AuthStateChanged (Some u1), Snapshot 0 [m1_doc], Snapshot 7 [m3_doc],
      Snapshot 0 [m1_doc, m2_doc]]"

definition signin_refused :: "event list" where
  "signin_refused =
     [Mount InitOk, Settled 0 (Rejected ''auth/admin-restricted-operation''),
      AuthStateChanged None]"

section \<open>Properties\<close>

subsection \<open>Every reachable state is consistent\<close>

lemma listening_iff [simp]: "listening st sid \<longleftrightarrow> sid \<in> fst ` set (subs st)"
  by (simp add: listening_def)

lemma cons_init: "consistent e init_state"
  by (simp add: consistent_def init_state_def)

lemma commit_fields [simp]:
  "messages (commit e st) = messages st"
  "newMessage (commit e st) = newMessage st"
  "user (commit e st) = user st"
  "db (commit e st) = db st"
  "auth (commit e st) = auth st"
  "isAuthReady (commit e st) = isAuthReady st"
  "phase (commit e st) = phase st"
  "auth_cleanup (commit e st) = auth_cleanup st"
  "auth_observer (commit e st) = auth_observer st"
  "requests (commit e st) = requests st"
  "settled (commit e st) = settled st"
  "console (commit e st) = console st"
  by (simp_all add: commit_def Let_def feed_effect_def run_feed_cleanup_def split: option.splits)

lemma cons_commit:
  assumes "phase st = Mounted"
    and "subs st = (case feed_cleanup st of None \<Rightarrow> [] | Some sid \<Rightarrow> [(sid, messages_query e)])"
    and "\<forall>sid. feed_cleanup st = Some sid \<longrightarrow> sid < next_sub st"
    and "feed_deps st = Some (db st, user st, isAuthReady st) \<longrightarrow>
        (feed_cleanup st \<noteq> None \<longleftrightarrow> db st \<noteq> None \<and> user st \<noteq> None \<and> isAuthReady st)"
    and "user st \<noteq> None \<longrightarrow> isAuthReady st"
    and "\<forall>i \<in> set (settled st). i < length (requests st)"
    and "auth_observer st \<longrightarrow> auth_cleanup st"
  shows "consistent e (commit e st)"
  using assms
  by (auto simp: consistent_def commit_def Let_def feed_effect_def run_feed_cleanup_def split: option.splits)

lemma cons_update:
  assumes c: "consistent e st" and m: "phase st = Mounted"
    and f: "subs (f st) = subs st" "feed_cleanup (f st) = feed_cleanup st"
      "next_sub (f st) = next_sub st" "phase (f st) = phase st"
      "feed_deps (f st) = feed_deps st" "settled (f st) = settled st"
      "requests (f st) = requests st" "auth_observer (f st) = auth_observer st"
      "auth_cleanup (f st) = auth_cleanup st"
    and u: "user (f st) \<noteq> None \<longrightarrow> isAuthReady (f st)"
  shows "consistent e (update e f st)"
proof -
  have "consistent e (commit e (f st))"
  proof (rule cons_commit)
    show "phase (f st) = Mounted" using m f by simp
    show "subs (f st) = (case feed_cleanup (f st) of None \<Rightarrow> [] | Some sid \<Rightarrow> [(sid, messages_query e)])"
      using c f by (simp add: consistent_def)
    show "\<forall>sid. feed_cleanup (f st) = Some sid \<longrightarrow> sid < next_sub (f st)"
      using c f by (simp add: consistent_def)
    show "feed_deps (f st) = Some (db (f st), user (f st), isAuthReady (f st)) \<longrightarrow>
        (feed_cleanup (f st) \<noteq> None \<longleftrightarrow> db (f st) \<noteq> None \<and> user (f st) \<noteq> None \<and> isAuthReady (f st))"
      using c m f by (auto simp: consistent_def)
    show "user (f st) \<noteq> None \<longrightarrow> isAuthReady (f st)" by (rule u)
    show "\<forall>i \<in> set (settled (f st)). i < length (requests (f st))"
      using c f by (simp add: consistent_def)
    show "auth_observer (f st) \<longrightarrow> auth_cleanup (f st)"
      using c f by (simp add: consistent_def)
  qed
  then show ?thesis using m by (simp add: update_def)
qed

lemma cons_console_error: "consistent e st \<Longrightarrow> phase st \<noteq> NotMounted \<Longrightarrow> consistent e (console_error a b st)"
  by (simp add: consistent_def console_error_def)

lemma cons_auth:
  assumes "consistent e st" shows "consistent e (step e (AuthStateChanged cu) st)"
proof (cases "auth_observer st")
  case True
  then have "phase st = Mounted" using assms by (simp add: consistent_def)
  then have "consistent e (update e (\<lambda>s. s\<lparr>user := cu, isAuthReady := True\<rparr>) st)"
    using assms by (intro cons_update) simp_all
  then show ?thesis using True by simp
next
  case False
  then show ?thesis using assms by simp
qed

lemma cons_snapshot:
  assumes "consistent e st" shows "consistent e (step e (Snapshot sid docs) st)"
proof (cases "phase st = Mounted")
  case True
  then have "consistent e (update e (\<lambda>s. s\<lparr>messages := map to_message docs\<rparr>) st)"
    using assms by (intro cons_update) (simp_all add: consistent_def)
  then show ?thesis using assms by simp
next
  case False
  then show ?thesis using assms by (simp add: update_def)
qed

lemma cons_change:
  assumes "consistent e st" shows "consistent e (step e (Change v) st)"
proof (cases "phase st = Mounted")
  case True
  then have "consistent e (update e (\<lambda>s. s\<lparr>newMessage := v\<rparr>) st)"
    using assms by (intro cons_update) (simp_all add: consistent_def)
  then show ?thesis using assms by simp
next
  case False
  then show ?thesis using assms by (simp add: update_def)
qed

lemma cons_snapshot_error:
  assumes "consistent e st" shows "consistent e (step e (SnapshotError sid err) st)"
proof (cases "phase st = NotMounted")
  case True
  then have "st = init_state" using assms by (simp add: consistent_def)
  then show ?thesis using assms by (simp add: init_state_def)
next
  case False
  then show ?thesis using assms by (simp add: cons_console_error)
qed

lemma cons_submit:
  assumes "consistent e st" shows "consistent e (step e Submit st)"
proof (cases "form_rendered st")
  case True
  then have "phase st = Mounted" by (simp add: form_rendered_def)
  then have "consistent e (handleSendMessage e st)"
    using assms by (auto simp: consistent_def handleSendMessage_def less_Suc_eq split: option.splits)
  then show ?thesis using True by simp
next
  case False
  then show ?thesis using assms by simp
qed

lemma cons_unmount:
  assumes "consistent e st" shows "consistent e (step e Unmount st)"
  using assms
  by (auto simp: consistent_def unmount_def run_feed_cleanup_def split: option.splits)

lemma cons_settled:
  assumes "consistent e st" shows "consistent e (step e (Settled i out) st)"
proof (cases "i < length (requests st) \<and> i \<notin> set (settled st)")
  case False
  then show ?thesis using assms by auto
next
  case True
  let ?s = "st\<lparr>settled := i # settled st\<rparr>"
  have nm: "phase st \<noteq> NotMounted"
    using True assms by (auto simp: consistent_def init_state_def)
  have c: "consistent e ?s"
    using True assms nm by (simp add: consistent_def)
  have "consistent e (continue e r out ?s)" for r
  proof (cases "phase st = Mounted")
    case True
    then have "consistent e (update e (\<lambda>s. s\<lparr>newMessage := []\<rparr>) ?s)"
      using c by (intro cons_update) (simp_all add: consistent_def)
    then show ?thesis using c nm
      by (simp add: continue_def cons_console_error split: request.splits outcome.splits)
  next
    case False
    then show ?thesis using c nm
      by (simp add: continue_def cons_console_error update_def split: request.splits outcome.splits)
  qed
  then show ?thesis using True by simp
qed

lemma commit_first:
  "commit e (init_state\<lparr>phase := Mounted\<rparr>) =
     init_state\<lparr>phase := Mounted, feed_deps := Some (None, None, False)\<rparr>"
  by (simp add: commit_def Let_def feed_effect_def run_feed_cleanup_def init_state_def)

lemma cons_mount:
  assumes "consistent e st" shows "consistent e (step e (Mount out) st)"
proof (cases "phase st = NotMounted")
  case False
  then show ?thesis using assms by simp
next
  case True
  then have st: "st = init_state" using assms by (simp add: consistent_def)
  let ?s = "init_effect e out (init_state\<lparr>phase := Mounted, feed_deps := Some (None, None, False)\<rparr>)"
  have "consistent e (commit e ?s)"
    by (rule cons_commit)
       (simp_all add: init_effect_def console_error_def init_state_def
          split: init_outcome.splits init_stage.splits)
  then show ?thesis using st by (simp add: commit_first) (simp add: init_state_def)
qed

lemma cons_step: "consistent e st \<Longrightarrow> consistent e (step e ev st)"
  by (cases ev)
     (simp_all only: cons_mount cons_unmount cons_auth cons_snapshot cons_snapshot_error
        cons_change cons_submit cons_settled)

lemma cons_foldl: "consistent e st \<Longrightarrow> consistent e (foldl (\<lambda>s ev. step e ev s) st es)"
  by (induction es arbitrary: st) (simp_all add: cons_step)

lemma cons_run: "consistent e (run e es init_state)"
  by (simp add: run_def cons_foldl cons_init)

subsection \<open>The sample states, evaluated\<close>

lemmas step_defs =
  run_def init_state_def update_def commit_def Let_def feed_effect_def run_feed_cleanup_def
  init_effect_def console_error_def signIn_request_def handleSendMessage_def continue_def
  form_rendered_def unmount_def messages_query_def messages_path_def

lemma signed_in_eq:
  "signed_in =
     \<lparr>messages = [], newMessage = [], user = Some u1, db = Some Firestore,
      auth = Some FirebaseAuth, isAuthReady = True, phase = Mounted, auth_cleanup = True,
      feed_deps = Some (Some Firestore, Some u1, True), feed_cleanup = Some 0,
      auth_observer = True,
      subs = [(0, \<lparr>q_path = ''artifacts/default-app-id/public/data/messages'',
                    q_order_field = ''timestamp'', q_ascending = True\<rparr>)],
      next_sub = 1, requests = [SignInAnonymously], settled = [], console = []\<rparr>"
  by (simp add: signed_in_def demo_env_def step_defs)

lemma hello_sent_eq:
  "hello_sent =
     \<lparr>messages = [], newMessage = ''hello'', user = Some u1, db = Some Firestore,
      auth = Some FirebaseAuth, isAuthReady = True, phase = Mounted, auth_cleanup = True,
      feed_deps = Some (Some Firestore, Some u1, True), feed_cleanup = Some 0,
      auth_observer = True,
      subs = [(0, \<lparr>q_path = ''artifacts/default-app-id/public/data/messages'',
                    q_order_field = ''timestamp'', q_ascending = True\<rparr>)],
      next_sub = 1,
      requests = [SignInAnonymously,
        AddDoc ''artifacts/default-app-id/public/data/messages''
          [(''text'', Lit (FStr ''hello'')), (''userId'', Lit (FStr ''u1'')),
           (''timestamp'', ServerTimestamp)]],
      settled = [], console = []\<rparr>"
  by (simp add: hello_sent_def demo_env_def u1_def step_defs trim_def is_space_def)

lemma signed_out_eq:
  "signed_out =
     signed_in\<lparr>user := None, feed_deps := Some (Some Firestore, None, True),
               feed_cleanup := None, subs := []\<rparr>"
proof -
  have "signed_out = step demo_env (AuthStateChanged None) signed_in"
    by (simp add: signed_out_def signed_in_def run_def)
  also have "\<dots> = signed_in\<lparr>user := None, feed_deps := Some (Some Firestore, None, True),
               feed_cleanup := None, subs := []\<rparr>"
    unfolding signed_in_eq by (simp add: step_defs)
  finally show ?thesis .
qed

lemma trim_hello: "trim ''hello'' = ''hello''" "trim ''  '' = []"
  by (simp_all add: trim_def is_space_def)

subsection \<open>The composer\<close>

lemma settled_fresh:
  "consistent e st \<Longrightarrow> length (requests st) \<notin> set (settled st)"
  by (auto simp: consistent_def)

lemma user_ready: "consistent e st \<Longrightarrow> user st \<noteq> None \<Longrightarrow> isAuthReady st"
  by (simp add: consistent_def)

lemma handleSendMessage_sends:
  "trim (newMessage st) \<noteq> [] \<Longrightarrow> db st \<noteq> None \<Longrightarrow> user st = Some u \<Longrightarrow>
   handleSendMessage e st =
     st\<lparr>requests := requests st @
          [AddDoc (''artifacts/'' @ appId e @ ''/public/data/messages'')
             [(''text'', Lit (FStr (newMessage st))),
              (''userId'', Lit (FStr (uid u))),
              (''timestamp'', ServerTimestamp)]]\<rparr>"
  by (simp add: handleSendMessage_def messages_path_def)

lemma update_newMessage:
  "phase st = Mounted \<Longrightarrow> newMessage (update e (\<lambda>s. s\<lparr>newMessage := v\<rparr>) st) = v"
  by (simp add: update_def)

lemma settle_rejected:
  "i < length (requests st) \<Longrightarrow> i \<notin> set (settled st) \<Longrightarrow>
   step e (Settled i (Rejected err)) st =
     st\<lparr>settled := i # settled st,
        console := console st @
          [(case requests st ! i of
              AddDoc p fs \<Rightarrow> ''Error sending message:''
            | _ \<Rightarrow> ''Firebase authentication error:'', err)]\<rparr>"
  by (simp add: continue_def console_error_def split: request.splits)

text \<open>
  Claim C1. With a draft whose trimmed form is not empty, a database handle and an
  identity, the submit handler issues exactly one request, an \<^verbatim>\<open>addDoc\<close> on
  \<^verbatim>\<open>artifacts/{appId}/public/data/messages\<close> whose \<^verbatim>\<open>text\<close> is the draft as typed,
  whose \<^verbatim>\<open>userId\<close> is the uid of the identity and whose \<^verbatim>\<open>timestamp\<close> is the
  server-timestamp sentinel, and changes nothing else. When that request is fulfilled
  while the component is mounted, the draft is the empty string. In every state the
  component reaches while mounted, submitting the form runs the handler, and the request
  it issues has not settled before.
\<close>

theorem submit_appends_one_message:
  assumes "trim (newMessage st) \<noteq> []" and "db st \<noteq> None" and "user st = Some u"
  shows "handleSendMessage e st =
           st\<lparr>requests := requests st @
                [AddDoc (''artifacts/'' @ appId e @ ''/public/data/messages'')
                   [(''text'', Lit (FStr (newMessage st))),
                    (''userId'', Lit (FStr (uid u))),
                    (''timestamp'', ServerTimestamp)]]\<rparr> \<and>
         (phase st = Mounted \<and> length (requests st) \<notin> set (settled st) \<longrightarrow>
            newMessage (step e (Settled (length (requests st)) Fulfilled)
              (handleSendMessage e st)) = []) \<and>
         (st = run e es init_state \<and> phase st = Mounted \<longrightarrow>
            step e Submit st = handleSendMessage e st \<and>
            length (requests st) \<notin> set (settled st))"
proof (intro conjI impI)
  let ?r = "AddDoc (''artifacts/'' @ appId e @ ''/public/data/messages'')
                   [(''text'', Lit (FStr (newMessage st))),
                    (''userId'', Lit (FStr (uid u))),
                    (''timestamp'', ServerTimestamp)]"
  show h: "handleSendMessage e st = st\<lparr>requests := requests st @ [?r]\<rparr>"
    using assms by (rule handleSendMessage_sends)
  {
    assume "phase st = Mounted \<and> length (requests st) \<notin> set (settled st)"
    then show "newMessage (step e (Settled (length (requests st)) Fulfilled)
              (handleSendMessage e st)) = []"
      unfolding h by (simp add: continue_def update_newMessage)
  }
  {
    assume a: "st = run e es init_state \<and> phase st = Mounted"
    then have r: "st = run e es init_state" by (rule conjunct1)
    have c: "consistent e st" unfolding r by (rule cons_run)
    from a have m: "phase st = Mounted" by (rule conjunct2)
    have "isAuthReady st" using c assms(3) by (simp add: user_ready)
    then show "step e Submit st = handleSendMessage e st"
      using m by (simp add: form_rendered_def)
    show "length (requests st) \<notin> set (settled st)"
      using c by (rule settled_fresh)
  }
qed

theorem submit_appends_one_message_witness:
  "trim (newMessage (step demo_env (Change ''hello'') signed_in)) \<noteq> [] \<and>
   db (step demo_env (Change ''hello'') signed_in) \<noteq> None \<and>
   user (step demo_env (Change ''hello'') signed_in) = Some u1 \<and>
   phase (step demo_env (Change ''hello'') signed_in) = Mounted \<and>
   requests (step demo_env Submit (step demo_env (Change ''hello'') signed_in)) =
     [SignInAnonymously,
      AddDoc ''artifacts/default-app-id/public/data/messages''
        [(''text'', Lit (FStr ''hello'')), (''userId'', Lit (FStr ''u1'')),
         (''timestamp'', ServerTimestamp)]] \<and>
   newMessage (step demo_env (Settled 1 Fulfilled)
     (step demo_env Submit (step demo_env (Change ''hello'') signed_in))) = []"
proof -
  let ?st = "step demo_env (Change ''hello'') signed_in"
  have r: "?st = run demo_env [Mount InitOk, AuthStateChanged (Some u1), Change ''hello''] init_state"
    by (simp add: signed_in_def run_def)
  have v: "?st = signed_in\<lparr>newMessage := ''hello''\<rparr>"
    by (simp add: signed_in_eq step_defs)
  have h: "trim (newMessage ?st) \<noteq> []" "db ?st \<noteq> None" "user ?st = Some u1"
    unfolding v by (simp_all add: signed_in_eq trim_hello)
  have m: "phase ?st = Mounted" "length (requests ?st) = 1" "appId demo_env = ''default-app-id''"
    "uid u1 = ''u1''" "newMessage ?st = ''hello''" "requests ?st = [SignInAnonymously]"
    unfolding v by (simp_all add: signed_in_eq demo_env_def u1_def)
  from submit_appends_one_message [OF h, of demo_env
      "[Mount InitOk, AuthStateChanged (Some u1), Change ''hello'']"] r m(1)
  have s: "step demo_env Submit ?st = handleSendMessage demo_env ?st"
    and f: "length (requests ?st) \<notin> set (settled ?st)"
    and g: "handleSendMessage demo_env ?st =
           ?st\<lparr>requests := requests ?st @
                [AddDoc (''artifacts/'' @ appId demo_env @ ''/public/data/messages'')
                   [(''text'', Lit (FStr (newMessage ?st))),
                    (''userId'', Lit (FStr (uid u1))),
                    (''timestamp'', ServerTimestamp)]]\<rparr>"
    and k: "phase ?st = Mounted \<and> length (requests ?st) \<notin> set (settled ?st) \<longrightarrow>
            newMessage (step demo_env (Settled (length (requests ?st)) Fulfilled)
              (handleSendMessage demo_env ?st)) = []"
    by blast+
  have "requests (step demo_env Submit ?st) =
     [SignInAnonymously,
      AddDoc ''artifacts/default-app-id/public/data/messages''
        [(''text'', Lit (FStr ''hello'')), (''userId'', Lit (FStr ''u1'')),
         (''timestamp'', ServerTimestamp)]]"
    unfolding s g m by simp
  moreover have "newMessage (step demo_env (Settled 1 Fulfilled) (step demo_env Submit ?st)) = []"
    using k f m(1) unfolding s m(2) by simp
  ultimately show ?thesis using h m(1) by blast
qed

text \<open>
  Claim C3. When the trimmed draft is empty (an empty or whitespace-only draft), or there
  is no database handle, or there is no identity, the handler returns at line 89: the
  state after the submission is the state before it, so no request is issued, nothing is
  logged and the draft is unchanged.
\<close>

theorem submit_rejected_silently:
  "trim (newMessage st) = [] \<or> db st = None \<or> user st = None \<Longrightarrow>
   handleSendMessage e st = st \<and> step e Submit st = st"
  by (auto simp: handleSendMessage_def)

theorem submit_rejected_silently_witness:
  "trim (newMessage (step demo_env (Change ''  '') signed_in)) = [] \<and>
   step demo_env Submit (step demo_env (Change ''  '') signed_in) =
     step demo_env (Change ''  '') signed_in \<and>
   newMessage (step demo_env Submit (step demo_env (Change ''  '') signed_in)) = ''  ''"
proof -
  let ?st = "step demo_env (Change ''  '') signed_in"
  have v: "?st = signed_in\<lparr>newMessage := ''  ''\<rparr>"
    by (simp add: signed_in_eq step_defs)
  have h: "trim (newMessage ?st) = []"
    unfolding v by (simp add: trim_hello)
  then have "trim (newMessage ?st) = [] \<or> db ?st = None \<or> user ?st = None" by simp
  from submit_rejected_silently [OF this, of demo_env] h show ?thesis
    unfolding v by simp
qed

text \<open>
  Claim C4. When the promise of an \<^verbatim>\<open>addDoc\<close> request rejects, the handler logs
  \<^verbatim>\<open>Error sending message:\<close> with the error and does nothing else: the draft, the
  message list and every other state variable are as before, and no further request is
  issued.
\<close>

theorem append_failure_keeps_draft:
  assumes "i < length (requests st)" and "i \<notin> set (settled st)"
    and "requests st ! i = AddDoc p fs"
  shows "step e (Settled i (Rejected err)) st =
           st\<lparr>settled := i # settled st,
              console := console st @ [(''Error sending message:'', err)]\<rparr> \<and>
         newMessage (step e (Settled i (Rejected err)) st) = newMessage st \<and>
         messages (step e (Settled i (Rejected err)) st) = messages st \<and>
         requests (step e (Settled i (Rejected err)) st) = requests st"
  using settle_rejected [OF assms(1,2), of e err] assms(3) by simp

theorem append_failure_keeps_draft_witness:
  "1 < length (requests hello_sent) \<and> 1 \<notin> set (settled hello_sent) \<and>
   requests hello_sent ! 1 =
     AddDoc ''artifacts/default-app-id/public/data/messages''
       [(''text'', Lit (FStr ''hello'')), (''userId'', Lit (FStr ''u1'')),
        (''timestamp'', ServerTimestamp)] \<and>
   newMessage (step demo_env (Settled 1 (Rejected ''permission-denied'')) hello_sent) = ''hello'' \<and>
   messages (step demo_env (Settled 1 (Rejected ''permission-denied'')) hello_sent) = [] \<and>
   console (step demo_env (Settled 1 (Rejected ''permission-denied'')) hello_sent) =
     [(''Error sending message:'', ''permission-denied'')] \<and>
   requests (step demo_env (Settled 1 (Rejected ''permission-denied'')) hello_sent) =
     requests hello_sent"
proof -
  have h: "1 < length (requests hello_sent)" "1 \<notin> set (settled hello_sent)"
    "requests hello_sent ! 1 =
       AddDoc ''artifacts/default-app-id/public/data/messages''
         [(''text'', Lit (FStr ''hello'')), (''userId'', Lit (FStr ''u1'')),
          (''timestamp'', ServerTimestamp)]"
    by (simp_all add: hello_sent_eq)
  show ?thesis
    using append_failure_keeps_draft [OF h, of demo_env "''permission-denied''"] h
    by (simp add: hello_sent_eq)
qed

subsection \<open>Readiness\<close>

lemma init_effect_fields [simp]:
  "messages (init_effect e out st) = messages st"
  "newMessage (init_effect e out st) = newMessage st"
  "user (init_effect e out st) = user st"
  "isAuthReady (init_effect e out st) = isAuthReady st"
  "phase (init_effect e out st) = phase st"
  "subs (init_effect e out st) = subs st"
  "next_sub (init_effect e out st) = next_sub st"
  "feed_cleanup (init_effect e out st) = feed_cleanup st"
  by (simp_all add: init_effect_def console_error_def split: init_outcome.splits init_stage.splits)

lemma unmount_fields [simp]:
  "messages (unmount st) = messages st"
  "newMessage (unmount st) = newMessage st"
  "user (unmount st) = user st"
  "isAuthReady (unmount st) = isAuthReady st"
  "phase (unmount st) = Unmounted"
  "next_sub (unmount st) = next_sub st"
  by (simp_all add: unmount_def run_feed_cleanup_def split: option.splits)

lemma console_error_fields [simp]:
  "messages (console_error a b st) = messages st"
  "newMessage (console_error a b st) = newMessage st"
  "user (console_error a b st) = user st"
  "isAuthReady (console_error a b st) = isAuthReady st"
  "phase (console_error a b st) = phase st"
  "subs (console_error a b st) = subs st"
  "next_sub (console_error a b st) = next_sub st"
  "feed_cleanup (console_error a b st) = feed_cleanup st"
  "auth_observer (console_error a b st) = auth_observer st"
  "requests (console_error a b st) = requests st"
  by (simp_all add: console_error_def)

lemma handleSendMessage_fields [simp]:
  "messages (handleSendMessage e st) = messages st"
  "newMessage (handleSendMessage e st) = newMessage st"
  "user (handleSendMessage e st) = user st"
  "isAuthReady (handleSendMessage e st) = isAuthReady st"
  "phase (handleSendMessage e st) = phase st"
  "subs (handleSendMessage e st) = subs st"
  "next_sub (handleSendMessage e st) = next_sub st"
  "feed_cleanup (handleSendMessage e st) = feed_cleanup st"
  "auth_observer (handleSendMessage e st) = auth_observer st"
  by (simp_all add: handleSendMessage_def split: option.splits)

lemma continue_ready [simp]:
  "isAuthReady (continue e r out st) = isAuthReady st"
  "user (continue e r out st) = user st"
  "messages (continue e r out st) = messages st"
  "phase (continue e r out st) = phase st"
  "auth_observer (continue e r out st) = auth_observer st"
  by (simp_all add: continue_def update_def split: request.splits outcome.splits)

lemma ready_changes_only_by_auth:
  "isAuthReady (step e ev st) \<noteq> isAuthReady st \<Longrightarrow> \<exists>cu. ev = AuthStateChanged cu"
  by (cases ev) (auto simp: update_def split: if_splits)

lemma ready_step: "isAuthReady st \<Longrightarrow> isAuthReady (step e ev st)"
  by (cases ev) (simp_all add: update_def)

lemma ready_foldl: "isAuthReady st \<Longrightarrow> isAuthReady (foldl (\<lambda>s ev. step e ev s) st es)"
  by (induction es arbitrary: st) (simp_all add: ready_step)

lemma ready_run: "isAuthReady st \<Longrightarrow> isAuthReady (run e es st)"
  by (simp add: run_def ready_foldl)

lemma render_loading: "render e st = Inr (LoadingScreen ''Loading chat...'') \<longleftrightarrow> \<not> isAuthReady st"
  by (simp add: render_def split: sum.splits)

text \<open>
  Claim C9. The ready flag is false in the initial state; the auth-state callback, run
  while the observer is registered, sets it and stores the identity it was given (a null
  identity on sign-out); no event other than that callback changes the flag, and no
  event at all resets it: once set it is set after every further sequence of events. The
  component returns the \<^verbatim>\<open>Loading chat...\<close> screen exactly when the flag is false,
  hence never again once the flag is set.
\<close>

theorem auth_readiness_monotone:
  "\<not> isAuthReady init_state \<and>
   (auth_observer st \<and> phase st = Mounted \<longrightarrow>
      isAuthReady (step e (AuthStateChanged cu) st) \<and>
      user (step e (AuthStateChanged cu) st) = cu) \<and>
   (isAuthReady (step e ev st) \<noteq> isAuthReady st \<longrightarrow> (\<exists>c. ev = AuthStateChanged c)) \<and>
   (isAuthReady st \<longrightarrow> isAuthReady (run e es st)) \<and>
   (isAuthReady st \<longrightarrow> render e (run e es st) \<noteq> Inr (LoadingScreen ''Loading chat...'')) \<and>
   (render e st = Inr (LoadingScreen ''Loading chat...'') \<longleftrightarrow> \<not> isAuthReady st)"
proof -
  have "\<not> isAuthReady init_state" by (simp add: init_state_def)
  moreover have "auth_observer st \<and> phase st = Mounted \<longrightarrow>
      isAuthReady (step e (AuthStateChanged cu) st) \<and>
      user (step e (AuthStateChanged cu) st) = cu"
    by (simp add: update_def)
  moreover have "isAuthReady (step e ev st) \<noteq> isAuthReady st \<longrightarrow> (\<exists>c. ev = AuthStateChanged c)"
    using ready_changes_only_by_auth by blast
  moreover have "isAuthReady st \<longrightarrow> isAuthReady (run e es st)"
    by (simp add: ready_run)
  moreover have "isAuthReady st \<longrightarrow> render e (run e es st) \<noteq> Inr (LoadingScreen ''Loading chat...'')"
    by (simp add: render_loading ready_run)
  moreover note render_loading
  ultimately show ?thesis by blast
qed

theorem auth_readiness_monotone_witness:
  "auth_observer signed_in \<and> phase signed_in = Mounted \<and> isAuthReady signed_in \<and>
   user (step demo_env (AuthStateChanged None) signed_in) = None \<and>
   isAuthReady (step demo_env (AuthStateChanged None) signed_in) \<and>
   isAuthReady (run demo_env [AuthStateChanged None, Unmount] signed_in) \<and>
   render demo_env (run demo_env [AuthStateChanged None, Unmount] signed_in) \<noteq>
     Inr (LoadingScreen ''Loading chat...'') \<and>
   render demo_env init_state = Inr (LoadingScreen ''Loading chat...'')"
proof -
  have h: "auth_observer signed_in" "phase signed_in = Mounted" "isAuthReady signed_in"
    by (simp_all add: signed_in_eq)
  have i: "\<not> isAuthReady init_state" by (simp add: init_state_def)
  show ?thesis
    using auth_readiness_monotone [of signed_in demo_env None "AuthStateChanged None"
        "[AuthStateChanged None, Unmount]"]
      auth_readiness_monotone [of init_state demo_env None Unmount "[]"] h i
    by blast
qed

subsection \<open>The presenter\<close>

lemma render_message_self:
  "m ''userId'' = Some (FStr (uid w)) \<Longrightarrow> time_suffix e m = Inr t \<Longrightarrow>
   render_message e (Some w) m =
     Inr \<lparr>b_key = m ''id'', row_class = ''flex justify-end'',
          bubble_class = ''max-w-[70%] p-3 rounded-xl shadow-sm bg-blue-500 text-white rounded-br-none'',
          b_text = m ''text'', b_label = ''You'' @ t\<rparr>"
  by (simp add: render_message_def sender_label_def is_self_def)

lemma render_message_other:
  "m ''userId'' = Some (FStr s) \<Longrightarrow> time_suffix e m = Inr t \<Longrightarrow>
   \<forall>w. u = Some w \<longrightarrow> uid w \<noteq> s \<Longrightarrow>
   render_message e u m =
     Inr \<lparr>b_key = m ''id'', row_class = ''flex justify-start'',
          bubble_class = ''max-w-[70%] p-3 rounded-xl shadow-sm bg-gray-300 text-gray-800 rounded-bl-none'',
          b_text = m ''text'', b_label = ''User: '' @ take 8 s @ ''...'' @ t\<rparr>"
  by (cases u) (auto simp: render_message_def sender_label_def is_self_def)

lemma render_messages_map:
  "render_messages e u ms = Inr bs \<Longrightarrow> map (render_message e u) ms = map Inr bs"
  by (induction ms arbitrary: bs) (auto split: sum.splits)

lemma render_messages_throws:
  "m \<in> set ms \<Longrightarrow> render_message e u m = Inl err \<Longrightarrow> \<exists>err'. render_messages e u ms = Inl err'"
  by (induction ms) (auto split: sum.splits)

lemma render_placeholder:
  "isAuthReady st \<Longrightarrow> messages st = [] \<Longrightarrow>
   render e st = Inr (ChatScreen (header_uid st)
                  (Placeholder ''No messages yet. Start chatting!'') (newMessage st))"
  by (simp add: render_def)

lemma render_bubbles:
  "render e st = Inr (ChatScreen h (Bubbles bs) d) \<Longrightarrow>
   render_messages e (user st) (messages st) = Inr bs"
  by (auto simp: render_def split: if_splits sum.splits)

lemma render_messages_of_map:
  "map (render_message e u) ms = map Inr bs \<Longrightarrow> render_messages e u ms = Inr bs"
  by (induction ms arbitrary: bs) auto

lemma render_nonempty:
  "isAuthReady st \<Longrightarrow> messages st \<noteq> [] \<Longrightarrow>
   map (render_message e (user st)) (messages st) = map Inr bs \<Longrightarrow>
   render e st = Inr (ChatScreen (header_uid st) (Bubbles bs) (newMessage st))"
  by (simp add: render_def render_messages_of_map)

lemma hello_shown_eq: "hello_shown = signed_in\<lparr>messages := [to_message m1_doc, to_message m2_doc]\<rparr>"
proof -
  have "hello_shown = step demo_env (Snapshot 0 [m1_doc, m2_doc]) signed_in"
    by (simp add: hello_shown_def signed_in_def run_def)
  also have "\<dots> = signed_in\<lparr>messages := [to_message m1_doc, to_message m2_doc]\<rparr>"
    unfolding signed_in_eq by (simp add: step_defs)
  finally show ?thesis .
qed

lemmas demo_msgs = to_message_def m1_doc_def m2_doc_def map_add_def

lemma m2_bubble:
  "render_message demo_env (Some u1) (to_message m2_doc) =
     Inr \<lparr>b_key = Some (FStr ''m2''), row_class = ''flex justify-start'',
          bubble_class = ''max-w-[70%] p-3 rounded-xl shadow-sm bg-gray-300 text-gray-800 rounded-bl-none'',
          b_text = Some (FStr ''hi''), b_label = ''User: anonymou...''\<rparr>"
  by (simp add: render_message_def sender_label_def is_self_def time_suffix_def truthy_def
        demo_msgs u1_def demo_env_def)

text \<open>
  Claim C8. For a message whose \<^verbatim>\<open>userId\<close> is a string and whose time suffix can be
  built: when the string is the uid of the current identity, the row is
  \<^verbatim>\<open>justify-end\<close> (right-aligned), the bubble blue and the label \<^verbatim>\<open>You\<close>; when
  there is no identity or its uid differs, the row is \<^verbatim>\<open>justify-start\<close>
  (left-aligned), the bubble grey and the label \<^verbatim>\<open>User: \<close>, the first 8 characters
  of the sender id and \<^verbatim>\<open>...\<close>; the time suffix follows the label in both. Once
  the session is ready, a list that is not empty is rendered as the chat screen whose
  message area holds the bubble of every message, in the order of the list, and a
  rendered message area holds nothing else; with no messages the message area is the
  placeholder, whose text begins \<^verbatim>\<open>No messages yet\<close>.
\<close>

theorem presenter_marks_own_messages:
  assumes "m ''userId'' = Some (FStr s)" and "time_suffix e m = Inr t"
  shows "(uid w = s \<longrightarrow>
            render_message e (Some w) m =
              Inr \<lparr>b_key = m ''id'', row_class = ''flex justify-end'',
                   bubble_class = ''max-w-[70%] p-3 rounded-xl shadow-sm bg-blue-500 text-white rounded-br-none'',
                   b_text = m ''text'', b_label = ''You'' @ t\<rparr>) \<and>
         ((\<forall>w. u = Some w \<longrightarrow> uid w \<noteq> s) \<longrightarrow>
            render_message e u m =
              Inr \<lparr>b_key = m ''id'', row_class = ''flex justify-start'',
                   bubble_class = ''max-w-[70%] p-3 rounded-xl shadow-sm bg-gray-300 text-gray-800 rounded-bl-none'',
                   b_text = m ''text'', b_label = ''User: '' @ take 8 s @ ''...'' @ t\<rparr>) \<and>
         (isAuthReady st \<and> messages st \<noteq> [] \<and>
          map (render_message e (user st)) (messages st) = map Inr bs \<longrightarrow>
            render e st = Inr (ChatScreen (header_uid st) (Bubbles bs) (newMessage st))) \<and>
         (render e st = Inr (ChatScreen h (Bubbles bs) d) \<longrightarrow>
            map (render_message e (user st)) (messages st) = map Inr bs) \<and>
         (isAuthReady st \<and> messages st = [] \<longrightarrow>
            render e st = Inr (ChatScreen (header_uid st)
              (Placeholder ''No messages yet. Start chatting!'') (newMessage st)))"
  using assms render_message_self [of m w e t] render_message_other [of m s e t u]
    render_messages_map [of e "user st" "messages st" bs] render_bubbles [of e st h bs d]
    render_placeholder [of st e] render_nonempty [of st e bs]
  by blast

theorem presenter_marks_own_messages_witness:
  "to_message m1_doc ''userId'' = Some (FStr ''u1'') \<and>
   time_suffix demo_env (to_message m1_doc) = Inr '' - 12:00:00'' \<and>
   render_message demo_env (Some u1) (to_message m1_doc) =
     Inr \<lparr>b_key = Some (FStr ''m1''), row_class = ''flex justify-end'',
          bubble_class = ''max-w-[70%] p-3 rounded-xl shadow-sm bg-blue-500 text-white rounded-br-none'',
          b_text = Some (FStr ''hello''), b_label = ''You - 12:00:00''\<rparr> \<and>
   render_message demo_env (Some u2) (to_message m1_doc) =
     Inr \<lparr>b_key = Some (FStr ''m1''), row_class = ''flex justify-start'',
          bubble_class = ''max-w-[70%] p-3 rounded-xl shadow-sm bg-gray-300 text-gray-800 rounded-bl-none'',
          b_text = Some (FStr ''hello''), b_label = ''User: u1... - 12:00:00''\<rparr> \<and>
   isAuthReady hello_shown \<and> messages hello_shown \<noteq> [] \<and>
   render demo_env hello_shown =
     Inr (ChatScreen ''u1''
       (Bubbles
         [\<lparr>b_key = Some (FStr ''m1''), row_class = ''flex justify-end'',
           bubble_class = ''max-w-[70%] p-3 rounded-xl shadow-sm bg-blue-500 text-white rounded-br-none'',
           b_text = Some (FStr ''hello''), b_label = ''You - 12:00:00''\<rparr>,
          \<lparr>b_key = Some (FStr ''m2''), row_class = ''flex justify-start'',
           bubble_class = ''max-w-[70%] p-3 rounded-xl shadow-sm bg-gray-300 text-gray-800 rounded-bl-none'',
           b_text = Some (FStr ''hi''), b_label = ''User: anonymou...''\<rparr>]) []) \<and>
   render demo_env signed_in =
     Inr (ChatScreen ''u1'' (Placeholder ''No messages yet. Start chatting!'') [])"
proof -
  let ?b1 = "\<lparr>b_key = Some (FStr ''m1''), row_class = ''flex justify-end'',
           bubble_class = ''max-w-[70%] p-3 rounded-xl shadow-sm bg-blue-500 text-white rounded-br-none'',
           b_text = Some (FStr ''hello''), b_label = ''You - 12:00:00''\<rparr>"
  let ?b2 = "\<lparr>b_key = Some (FStr ''m2''), row_class = ''flex justify-start'',
           bubble_class = ''max-w-[70%] p-3 rounded-xl shadow-sm bg-gray-300 text-gray-800 rounded-bl-none'',
           b_text = Some (FStr ''hi''), b_label = ''User: anonymou...''\<rparr>"
  have h: "to_message m1_doc ''userId'' = Some (FStr ''u1'')"
    "time_suffix demo_env (to_message m1_doc) = Inr '' - 12:00:00''"
    by (simp_all add: time_suffix_def truthy_def demo_msgs demo_env_def)
  have k: "uid u1 = ''u1''" "\<forall>w. Some u2 = Some w \<longrightarrow> uid w \<noteq> ''u1''"
    "isAuthReady signed_in \<and> messages signed_in = []"
    by (simp_all add: u1_def u2_def signed_in_eq)
  have v: "to_message m1_doc ''id'' = Some (FStr ''m1'')"
    "to_message m1_doc ''text'' = Some (FStr ''hello'')"
    "header_uid signed_in = ''u1''" "newMessage signed_in = []"
    "header_uid hello_shown = ''u1''" "newMessage hello_shown = []"
    by (simp_all add: demo_msgs header_uid_def hello_shown_eq signed_in_eq u1_def)
  have own: "render_message demo_env (Some u1) (to_message m1_doc) = Inr ?b1"
    and other: "render_message demo_env (Some u2) (to_message m1_doc) =
      Inr \<lparr>b_key = Some (FStr ''m1''), row_class = ''flex justify-start'',
          bubble_class = ''max-w-[70%] p-3 rounded-xl shadow-sm bg-gray-300 text-gray-800 rounded-bl-none'',
          b_text = Some (FStr ''hello''), b_label = ''User: u1... - 12:00:00''\<rparr>"
    and empty: "render demo_env signed_in =
      Inr (ChatScreen ''u1'' (Placeholder ''No messages yet. Start chatting!'') [])"
    using presenter_marks_own_messages [OF h, of u1 "Some u2" signed_in "[]" "[]" "[]"] k
    by (simp_all add: v)
  have l: "isAuthReady hello_shown" "messages hello_shown \<noteq> []"
    "user hello_shown = Some u1"
    "messages hello_shown = [to_message m1_doc, to_message m2_doc]"
    by (simp_all add: hello_shown_eq signed_in_eq)
  have "map (render_message demo_env (user hello_shown)) (messages hello_shown) =
      map Inr [?b1, ?b2]"
    unfolding l by (simp add: own m2_bubble)
  then have "render demo_env hello_shown = Inr (ChatScreen ''u1'' (Bubbles [?b1, ?b2]) [])"
    using presenter_marks_own_messages [OF h, of u1 "Some u2" hello_shown "[?b1, ?b2]" "[]" "[]"]
      l(1,2)
    by (simp add: v)
  then show ?thesis using h own other empty l(1,2) by blast
qed

subsection \<open>Messages without a sender id\<close>

lemma time_suffix_absent: "m ''timestamp'' = None \<Longrightarrow> time_suffix e m = Inr []"
  by (simp add: time_suffix_def truthy_def)

lemma render_message_absent_time:
  "m ''timestamp'' = None \<Longrightarrow> sender_label u m = Inr l \<Longrightarrow>
   \<exists>b. render_message e u m = Inr b \<and> b_label b = l"
  by (simp add: render_message_def time_suffix_absent)

lemma sender_label_absent:
  "m ''userId'' = None \<Longrightarrow> sender_label (Some w) m = Inl TypeError"
  by (simp add: sender_label_def is_self_def)

lemma render_message_absent_sender:
  "m ''userId'' = None \<Longrightarrow> render_message e (Some w) m = Inl TypeError"
  by (simp add: render_message_def sender_label_absent)

lemma sender_label_string:
  "sender_label (Some w) m = Inr l \<Longrightarrow> \<exists>s. m ''userId'' = Some (FStr s)"
  by (auto simp: sender_label_def is_self_def split: if_splits option.splits fsval.splits)

lemma render_message_string:
  "render_message e (Some w) m = Inr b \<Longrightarrow> \<exists>s. m ''userId'' = Some (FStr s)"
  by (auto simp: render_message_def split: sum.splits dest: sender_label_string)

lemma render_messages_all:
  "render_messages e u ms = Inr bs \<Longrightarrow> m \<in> set ms \<Longrightarrow> \<exists>b. render_message e u m = Inr b"
  by (induction ms arbitrary: bs) (auto split: sum.splits)

lemma render_throws:
  assumes "isAuthReady st" and "m \<in> set (messages st)"
    and "render_message e (user st) m = Inl err"
  shows "render e st = Inl TypeError"
proof -
  obtain err' where "render_messages e (user st) (messages st) = Inl err'"
    using render_messages_throws [OF assms(2,3)] by blast
  moreover have "err' = TypeError" by (cases err') simp
  moreover have "messages st \<noteq> []" using assms(2) by auto
  ultimately show ?thesis using assms(1) by (simp add: render_def)
qed

lemma render_ok_all:
  assumes "isAuthReady st" and "render e st = Inr v" and "m \<in> set (messages st)"
  shows "\<exists>b. render_message e (user st) m = Inr b"
proof -
  have "messages st \<noteq> []" using assms(3) by auto
  then obtain bs where "render_messages e (user st) (messages st) = Inr bs"
    using assms(1,2) by (auto simp: render_def split: sum.splits)
  then show ?thesis using assms(3) by (rule render_messages_all)
qed

lemma open_sub_live:
  "consistent e st \<Longrightarrow> sid \<in> fst ` set (subs st) \<Longrightarrow>
   phase st = Mounted \<and> user st \<noteq> None \<and> isAuthReady st \<and> feed_cleanup st = Some sid"
  by (cases "phase st") (auto simp: consistent_def init_state_def split: option.splits)

lemma snapshot_delivered:
  "sid \<in> fst ` set (subs st) \<Longrightarrow> phase st = Mounted \<Longrightarrow>
   messages (step e (Snapshot sid docs) st) = map to_message docs \<and>
   user (step e (Snapshot sid docs) st) = user st \<and>
   isAuthReady (step e (Snapshot sid docs) st) = isAuthReady st"
  by (simp add: update_def)

lemma sender_label_null_identity:
  "m ''userId'' = None \<Longrightarrow> sender_label None m = Inr ''You''"
  by (simp add: sender_label_def is_self_def)

lemma render_message_null_identity:
  "m ''userId'' = None \<Longrightarrow> time_suffix e m = Inr t \<Longrightarrow>
   render_message e None m =
     Inr \<lparr>b_key = m ''id'', row_class = ''flex justify-end'',
          bubble_class = ''max-w-[70%] p-3 rounded-xl shadow-sm bg-blue-500 text-white rounded-br-none'',
          b_text = m ''text'', b_label = ''You'' @ t\<rparr>"
  by (simp add: render_message_def sender_label_def is_self_def)

lemma render_messages_null_identity:
  "\<forall>x \<in> set ms. x ''userId'' = None \<and> x ''timestamp'' = None \<Longrightarrow>
   \<exists>bs. render_messages e None ms = Inr bs \<and> map b_label bs = map (\<lambda>x. ''You'') ms"
proof (induction ms)
  case Nil
  then show ?case by simp
next
  case (Cons m ms)
  then obtain bs where bs: "render_messages e None ms = Inr bs"
    "map b_label bs = map (\<lambda>x. ''You'') ms" by auto
  have "m ''userId'' = None" "time_suffix e m = Inr []"
    using Cons.prems by (simp_all add: time_suffix_absent)
  then have "render_message e None m =
     Inr \<lparr>b_key = m ''id'', row_class = ''flex justify-end'',
          bubble_class = ''max-w-[70%] p-3 rounded-xl shadow-sm bg-blue-500 text-white rounded-br-none'',
          b_text = m ''text'', b_label = ''You'' @ []\<rparr>"
    by (rule render_message_null_identity)
  then show ?case using bs by simp
qed

lemma render_null_identity:
  assumes "isAuthReady st" and "user st = None" and "messages st \<noteq> []"
    and "\<forall>x \<in> set (messages st). x ''userId'' = None \<and> x ''timestamp'' = None"
  shows "\<exists>bs. render e st = Inr (ChatScreen ''N/A'' (Bubbles bs) (newMessage st)) \<and>
              map b_label bs = map (\<lambda>x. ''You'') (messages st)"
proof -
  obtain bs where "render_messages e None (messages st) = Inr bs"
    "map b_label bs = map (\<lambda>x. ''You'') (messages st)"
    using render_messages_null_identity [OF assms(4)] by blast
  then show ?thesis using assms(1,2,3) by (simp add: render_def header_uid_def)
qed

text \<open>
  Claim C10, as stated, fails for a null identity: \<^verbatim>\<open>user?.uid\<close> is then
  \<^verbatim>\<open>undefined\<close>, an absent \<^verbatim>\<open>userId\<close> is strictly equal to it, and the label is
  \<^verbatim>\<open>You\<close> with no call of \<^verbatim>\<open>substring\<close>. That is the render of the state
  variables left by a sign-out and a delivery that React handles with one render: a null
  identity and the delivered list.
\<close>

theorem presenter_needs_sender_id_counterexample:
  "to_message m3_doc ''userId'' = None \<and>
   render_message demo_env None (to_message m3_doc) =
     Inr \<lparr>b_key = Some (FStr ''m3''), row_class = ''flex justify-end'',
          bubble_class = ''max-w-[70%] p-3 rounded-xl shadow-sm bg-blue-500 text-white rounded-br-none'',
          b_text = Some (FStr ''hi''), b_label = ''You''\<rparr> \<and>
   render demo_env (signed_out\<lparr>messages := [to_message m3_doc]\<rparr>) =
     Inr (ChatScreen ''N/A''
       (Bubbles
         [\<lparr>b_key = Some (FStr ''m3''), row_class = ''flex justify-end'',
           bubble_class = ''max-w-[70%] p-3 rounded-xl shadow-sm bg-blue-500 text-white rounded-br-none'',
           b_text = Some (FStr ''hi''), b_label = ''You''\<rparr>]) [])"
  by (simp add: render_def header_uid_def signed_out_eq signed_in_eq render_message_def
        sender_label_def is_self_def time_suffix_def truthy_def to_message_def m3_doc_def
        map_add_def)

text \<open>
  Claim C10, amended. A message with no \<^verbatim>\<open>timestamp\<close> has the empty time suffix, and
  its bubble is built whenever its sender label is. For a message with no \<^verbatim>\<open>userId\<close>:
  under a non-null identity the label throws, and with it the render of any list that
  holds the message, so a render that succeeds under a non-null identity has a string
  \<^verbatim>\<open>userId\<close> in every message; under a null identity the label is \<^verbatim>\<open>You\<close>, the
  bubble is the right-aligned one, and a list of such messages is rendered without an
  exception.
\<close>

theorem presenter_needs_sender_id:
  "(m ''timestamp'' = None \<longrightarrow>
      time_suffix e m = Inr [] \<and>
      (\<forall>l. sender_label u m = Inr l \<longrightarrow> (\<exists>b. render_message e u m = Inr b \<and> b_label b = l))) \<and>
   (m ''userId'' = None \<longrightarrow>
      sender_label (Some w) m = Inl TypeError \<and> render_message e (Some w) m = Inl TypeError) \<and>
   (isAuthReady st \<and> user st = Some w \<and> m \<in> set (messages st) \<and> m ''userId'' = None \<longrightarrow>
      render e st = Inl TypeError) \<and>
   (isAuthReady st \<and> user st = Some w \<and> render e st = Inr v \<longrightarrow>
      (\<forall>x \<in> set (messages st). \<exists>s. x ''userId'' = Some (FStr s))) \<and>
   (m ''userId'' = None \<longrightarrow>
      sender_label None m = Inr ''You'' \<and>
      (\<forall>t. time_suffix e m = Inr t \<longrightarrow>
         render_message e None m =
           Inr \<lparr>b_key = m ''id'', row_class = ''flex justify-end'',
                bubble_class = ''max-w-[70%] p-3 rounded-xl shadow-sm bg-blue-500 text-white rounded-br-none'',
                b_text = m ''text'', b_label = ''You'' @ t\<rparr>)) \<and>
   (isAuthReady st \<and> user st = None \<and> messages st \<noteq> [] \<and>
    (\<forall>x \<in> set (messages st). x ''userId'' = None \<and> x ''timestamp'' = None) \<longrightarrow>
      (\<exists>bs. render e st = Inr (ChatScreen ''N/A'' (Bubbles bs) (newMessage st)) \<and>
            map b_label bs = map (\<lambda>x. ''You'') (messages st)))"
proof (intro conjI impI allI ballI)
  assume "m ''timestamp'' = None"
  then show "time_suffix e m = Inr []" by (rule time_suffix_absent)
next
  fix l assume "m ''timestamp'' = None" "sender_label u m = Inr l"
  then show "\<exists>b. render_message e u m = Inr b \<and> b_label b = l"
    by (rule render_message_absent_time)
next
  assume "m ''userId'' = None"
  then show "sender_label (Some w) m = Inl TypeError" by (rule sender_label_absent)
next
  assume "m ''userId'' = None"
  then show "render_message e (Some w) m = Inl TypeError" by (rule render_message_absent_sender)
next
  assume a: "isAuthReady st \<and> user st = Some w \<and> m \<in> set (messages st) \<and> m ''userId'' = None"
  then have "render_message e (user st) m = Inl TypeError"
    by (simp add: render_message_absent_sender)
  with a show "render e st = Inl TypeError" by (intro render_throws) simp_all
next
  fix x assume a: "isAuthReady st \<and> user st = Some w \<and> render e st = Inr v"
    and x: "x \<in> set (messages st)"
  then obtain b where "render_message e (Some w) x = Inr b"
    using render_ok_all [of st e v x] by auto
  then show "\<exists>s. x ''userId'' = Some (FStr s)" by (rule render_message_string)
next
  assume "m ''userId'' = None"
  then show "sender_label None m = Inr ''You''" by (rule sender_label_null_identity)
next
  fix t assume "m ''userId'' = None" "time_suffix e m = Inr t"
  then show "render_message e None m =
           Inr \<lparr>b_key = m ''id'', row_class = ''flex justify-end'',
                bubble_class = ''max-w-[70%] p-3 rounded-xl shadow-sm bg-blue-500 text-white rounded-br-none'',
                b_text = m ''text'', b_label = ''You'' @ t\<rparr>"
    by (rule render_message_null_identity)
next
  assume a: "isAuthReady st \<and> user st = None \<and> messages st \<noteq> [] \<and>
    (\<forall>x \<in> set (messages st). x ''userId'' = None \<and> x ''timestamp'' = None)"
  then have "isAuthReady st" "user st = None" "messages st \<noteq> []"
    "\<forall>x \<in> set (messages st). x ''userId'' = None \<and> x ''timestamp'' = None"
    by blast+
  then show "\<exists>bs. render e st = Inr (ChatScreen ''N/A'' (Bubbles bs) (newMessage st)) \<and>
            map b_label bs = map (\<lambda>x. ''You'') (messages st)"
    by (rule render_null_identity)
qed

theorem presenter_needs_sender_id_witness:
  "to_message m3_doc ''timestamp'' = None \<and>
   time_suffix demo_env (to_message m3_doc) = Inr [] \<and>
   to_message m3_doc ''userId'' = None \<and>
   render_message demo_env (Some u1) (to_message m3_doc) = Inl TypeError \<and>
   isAuthReady (signed_in\<lparr>messages := [to_message m1_doc, to_message m3_doc]\<rparr>) \<and>
   user (signed_in\<lparr>messages := [to_message m1_doc, to_message m3_doc]\<rparr>) = Some u1 \<and>
   render demo_env (signed_in\<lparr>messages := [to_message m1_doc, to_message m3_doc]\<rparr>) =
     Inl TypeError \<and>
   sender_label None (to_message m3_doc) = Inr ''You''"
proof -
  let ?st = "signed_in\<lparr>messages := [to_message m1_doc, to_message m3_doc]\<rparr>"
  have h: "to_message m3_doc ''timestamp'' = None" "to_message m3_doc ''userId'' = None"
    by (simp_all add: to_message_def m3_doc_def map_add_def)
  have k: "isAuthReady ?st" "user ?st = Some u1" "to_message m3_doc \<in> set (messages ?st)"
    by (simp_all add: signed_in_eq)
  show ?thesis
    using presenter_needs_sender_id [where m = "to_message m3_doc" and e = demo_env
        and w = u1 and st = "?st"] h k
    by blast
qed

subsection \<open>The feed subscription\<close>

lemma cons_parts:
  assumes "consistent e st"
  shows "phase st = NotMounted \<Longrightarrow> st = init_state"
    and "phase st = Mounted \<Longrightarrow> feed_deps st = Some (db st, user st, isAuthReady st)"
    and "subs st = (case feed_cleanup st of None \<Rightarrow> [] | Some sid \<Rightarrow> [(sid, messages_query e)])"
    and "phase st = Mounted \<Longrightarrow>
        (feed_cleanup st \<noteq> None \<longleftrightarrow> db st \<noteq> None \<and> user st \<noteq> None \<and> isAuthReady st)"
    and "phase st = Unmounted \<Longrightarrow> feed_cleanup st = None \<and> \<not> auth_observer st"
    and "feed_cleanup st = Some sid \<Longrightarrow> sid < next_sub st"
    and "auth_observer st \<Longrightarrow> phase st = Mounted"
  using assms by (simp_all add: consistent_def)

lemma update_quiet:
  assumes "consistent e st"
    and "feed_deps (f st) = feed_deps st" and "db (f st) = db st"
    and "user (f st) = user st" and "isAuthReady (f st) = isAuthReady st"
  shows "update e f st = (if phase st = Mounted then f st else st)"
  using assms cons_parts(2) [OF assms(1)] by (simp add: update_def commit_def)

lemma step_quiet:
  assumes "consistent e st"
    and "\<forall>cu. ev \<noteq> AuthStateChanged cu" and "\<forall>out. ev \<noteq> Mount out" and "ev \<noteq> Unmount"
  shows "subs (step e ev st) = subs st \<and> next_sub (step e ev st) = next_sub st \<and>
         db (step e ev st) = db st \<and> user (step e ev st) = user st \<and>
         isAuthReady (step e ev st) = isAuthReady st \<and> phase (step e ev st) = phase st"
proof (cases ev)
  case (Snapshot sid docs)
  then show ?thesis
    using update_quiet [OF assms(1), of "\<lambda>s. s\<lparr>messages := map to_message docs\<rparr>"] by simp
next
  case (SnapshotError sid err)
  then show ?thesis by (simp add: console_error_def)
next
  case (Change v)
  then show ?thesis
    using update_quiet [OF assms(1), of "\<lambda>s. s\<lparr>newMessage := v\<rparr>"] by simp
next
  case Submit
  then show ?thesis by (simp add: handleSendMessage_def split: option.splits)
next
  case (Settled i out)
  have c: "consistent e (st\<lparr>settled := i # settled st\<rparr>)" if "i < length (requests st)"
    using assms(1) that by (auto simp: consistent_def init_state_def)
  show ?thesis
  proof (cases "i < length (requests st) \<and> i \<notin> set (settled st)")
    case True
    then show ?thesis
      using Settled update_quiet [OF c, of "\<lambda>s. s\<lparr>newMessage := []\<rparr>"]
      by (simp add: continue_def console_error_def split: request.splits outcome.splits)
  next
    case False
    then show ?thesis using Settled by auto
  qed
qed (use assms in simp_all)

lemma step_unmount:
  assumes "consistent e st"
  shows "subs (step e Unmount st) = [] \<or> (phase st = NotMounted \<and> step e Unmount st = st)"
    and "next_sub (step e Unmount st) = next_sub st"
    and "db (step e Unmount st) = db st \<and> user (step e Unmount st) = user st \<and>
         isAuthReady (step e Unmount st) = isAuthReady st"
  using cons_parts(3,5) [OF assms]
  by (cases "phase st"; simp add: unmount_def run_feed_cleanup_def split: option.splits)+

lemma step_mount:
  assumes "consistent e st"
  shows "subs (step e (Mount out) st) = subs st \<and> next_sub (step e (Mount out) st) = next_sub st"
proof (cases "phase st = NotMounted")
  case True
  then have "st = init_state" using assms by (simp add: consistent_def)
  then show ?thesis
    by (simp add: commit_first)
       (simp add: commit_def Let_def feed_effect_def run_feed_cleanup_def init_effect_def
          console_error_def init_state_def split: init_outcome.splits init_stage.splits)
next
  case False
  then show ?thesis by simp
qed

lemma step_auth:
  assumes "consistent e st"
  shows "(step e (AuthStateChanged cu) st = st) \<or>
         (subs (step e (AuthStateChanged cu) st) = [] \<and>
          next_sub (step e (AuthStateChanged cu) st) = next_sub st) \<or>
         (subs (step e (AuthStateChanged cu) st) = [(next_sub st, messages_query e)] \<and>
          next_sub (step e (AuthStateChanged cu) st) = Suc (next_sub st))"
proof (cases "auth_observer st")
  case True
  then have m: "phase st = Mounted" using cons_parts(7) [OF assms] by simp
  show ?thesis
    using True m cons_parts(2,3) [OF assms] cons_parts(2) [OF assms m]
    by (auto simp: update_def commit_def Let_def feed_effect_def run_feed_cleanup_def
          split: option.splits)
next
  case False
  then show ?thesis by simp
qed

lemma open_sub_numbered:
  "consistent e st \<Longrightarrow> s \<in> set (subs st) \<Longrightarrow> fst s < next_sub st"
  by (auto simp: consistent_def split: option.splits)

lemma at_most_one_sub: "consistent e st \<Longrightarrow> length (subs st) \<le> 1"
  by (simp add: consistent_def split: option.splits)

lemma open_iff_ready:
  "consistent e st \<Longrightarrow> phase st = Mounted \<Longrightarrow>
   subs st \<noteq> [] \<longleftrightarrow> db st \<noteq> None \<and> user st \<noteq> None \<and> isAuthReady st"
  by (auto simp: consistent_def split: option.splits)

lemma closed_unless_mounted: "consistent e st \<Longrightarrow> phase st \<noteq> Mounted \<Longrightarrow> subs st = []"
  by (cases "phase st") (auto simp: consistent_def init_state_def split: option.splits)

lemma closed_without_user: "consistent e st \<Longrightarrow> user st = None \<Longrightarrow> subs st = []"
  using open_iff_ready [of e st] closed_unless_mounted [of e st] by blast

lemma step_subs_fresh:
  assumes "consistent e st" and "s \<in> set (subs (step e ev st))"
  shows "s \<in> set (subs st) \<or> s = (next_sub st, messages_query e)"
proof (cases ev)
  case (Mount out)
  then show ?thesis using step_mount [OF assms(1), of out] assms(2) by simp
next
  case Unmount
  then show ?thesis using step_unmount(1) [OF assms(1)] assms(2) by auto
next
  case (AuthStateChanged cu)
  then show ?thesis using step_auth [OF assms(1), of cu] assms(2) by auto
qed (use step_quiet [OF assms(1), of ev] assms(2) in simp_all)

lemma step_next_sub_mono:
  assumes "consistent e st"
  shows "next_sub st \<le> next_sub (step e ev st)"
proof (cases ev)
  case (Mount out)
  then show ?thesis using step_mount [OF assms(1), of out] by simp
next
  case Unmount
  then show ?thesis using step_unmount(2) [OF assms(1)] by simp
next
  case (AuthStateChanged cu)
  then show ?thesis using step_auth [OF assms(1), of cu] by auto
qed (use step_quiet [OF assms(1), of ev] in simp_all)

lemma step_deps_change_closes:
  assumes "consistent e st" and "s \<in> set (subs st)"
    and "(db (step e ev st), user (step e ev st), isAuthReady (step e ev st)) \<noteq>
         (db st, user st, isAuthReady st)"
  shows "s \<notin> set (subs (step e ev st))"
proof (cases ev)
  case (Mount out)
  have "phase st \<noteq> NotMounted"
    using assms(2) closed_unless_mounted [OF assms(1)] by auto
  then show ?thesis using Mount assms(3) by simp
next
  case Unmount
  then show ?thesis using step_unmount(3) [OF assms(1)] assms(3) by simp
next
  case (AuthStateChanged cu)
  then show ?thesis
    using step_auth [OF assms(1), of cu] assms(3) open_sub_numbered [OF assms(1,2)] by auto
qed (use step_quiet [OF assms(1), of ev] assms(3) in simp_all)

text \<open>
  Claim C5. In every state the component reaches: while it is mounted, a feed
  subscription is open exactly when the database handle, the identity and the ready
  flag are all present; outside the mounted phase and whenever the identity is null none
  is open; at most one is open. A step that changes one of the three dependencies closes
  the subscription that was open, and a subscription open after a step is either the one
  open before it or a new one, numbered above every subscription opened so far.
\<close>

theorem feed_open_iff_ready:
  assumes "st = run e es init_state"
  shows "(phase st = Mounted \<longrightarrow>
            (subs st \<noteq> [] \<longleftrightarrow> db st \<noteq> None \<and> user st \<noteq> None \<and> isAuthReady st)) \<and>
         (phase st \<noteq> Mounted \<longrightarrow> subs st = []) \<and>
         (user st = None \<longrightarrow> subs st = []) \<and>
         length (subs st) \<le> 1 \<and>
         (\<forall>s \<in> set (subs st). fst s < next_sub st) \<and>
         ((db (step e ev st), user (step e ev st), isAuthReady (step e ev st)) \<noteq>
            (db st, user st, isAuthReady st) \<longrightarrow>
          (\<forall>s \<in> set (subs st). s \<notin> set (subs (step e ev st)))) \<and>
         (\<forall>s \<in> set (subs (step e ev st)). s \<in> set (subs st) \<or> fst s = next_sub st)"
proof -
  have c: "consistent e st" using assms by (simp add: cons_run)
  have "\<forall>s \<in> set (subs (step e ev st)). s \<in> set (subs st) \<or> fst s = next_sub st"
    using step_subs_fresh [OF c, of _ ev] by fastforce
  moreover have "(db (step e ev st), user (step e ev st), isAuthReady (step e ev st)) \<noteq>
            (db st, user st, isAuthReady st) \<longrightarrow>
          (\<forall>s \<in> set (subs st). s \<notin> set (subs (step e ev st)))"
    using step_deps_change_closes [OF c, of _ ev] by blast
  moreover have "\<forall>s \<in> set (subs st). fst s < next_sub st"
    using open_sub_numbered [OF c] by blast
  ultimately show ?thesis
    using open_iff_ready [OF c] closed_unless_mounted [OF c] closed_without_user [OF c]
      at_most_one_sub [OF c]
    by blast
qed

theorem feed_open_iff_ready_witness:
  "signed_in = run demo_env [Mount InitOk, AuthStateChanged (Some u1)] init_state \<and>
   phase signed_in = Mounted \<and> db signed_in \<noteq> None \<and> user signed_in \<noteq> None \<and>
   isAuthReady signed_in \<and>
   subs signed_in =
     [(0, \<lparr>q_path = ''artifacts/default-app-id/public/data/messages'',
           q_order_field = ''timestamp'', q_ascending = True\<rparr>)] \<and>
   user (step demo_env (AuthStateChanged None) signed_in) = None \<and>
   subs (step demo_env (AuthStateChanged None) signed_in) = [] \<and>
   subs (step demo_env (AuthStateChanged (Some u2))
          (step demo_env (AuthStateChanged None) signed_in)) =
     [(1, \<lparr>q_path = ''artifacts/default-app-id/public/data/messages'',
           q_order_field = ''timestamp'', q_ascending = True\<rparr>)]"
proof -
  have o: "step demo_env (AuthStateChanged None) signed_in = signed_out"
    by (simp add: signed_out_def signed_in_def run_def)
  have a: "phase signed_in = Mounted" "db signed_in \<noteq> None" "user signed_in \<noteq> None"
    "isAuthReady signed_in"
    "subs signed_in =
     [(0, \<lparr>q_path = ''artifacts/default-app-id/public/data/messages'',
           q_order_field = ''timestamp'', q_ascending = True\<rparr>)]"
    by (simp_all add: signed_in_eq)
  have b: "user signed_out = None" "subs signed_out = []"
    by (simp_all add: signed_out_eq)
  have d: "subs (step demo_env (AuthStateChanged (Some u2)) signed_out) =
     [(1, \<lparr>q_path = ''artifacts/default-app-id/public/data/messages'',
           q_order_field = ''timestamp'', q_ascending = True\<rparr>)]"
    unfolding signed_out_eq signed_in_eq by (simp add: step_defs demo_env_def)
  show ?thesis
    using feed_open_iff_ready [OF signed_in_def, of "AuthStateChanged None"] a b d signed_in_def
    unfolding o by simp
qed

lemma unmounted_step:
  "phase st = Unmounted \<Longrightarrow>
   phase (step e ev st) = Unmounted \<and> messages (step e ev st) = messages st"
  by (cases ev) (simp_all add: update_def form_rendered_def)

lemma run_Cons: "run e (ev # es) st = run e es (step e ev st)"
  by (simp add: run_def)

lemma run_Nil: "run e [] st = st"
  by (simp add: run_def)

lemma unmounted_run: "phase st = Unmounted \<Longrightarrow> messages (run e es st) = messages st"
  by (induction es arbitrary: st) (simp_all add: run_Nil run_Cons unmounted_step)

lemma closed_step:
  assumes "consistent e st" and "sid < next_sub st" and "sid \<notin> fst ` set (subs st)"
  shows "sid < next_sub (step e ev st) \<and> sid \<notin> fst ` set (subs (step e ev st))"
proof
  show "sid < next_sub (step e ev st)"
    using step_next_sub_mono [OF assms(1), of ev] assms(2) by simp
  show "sid \<notin> fst ` set (subs (step e ev st))"
  proof
    assume "sid \<in> fst ` set (subs (step e ev st))"
    then obtain s where s: "s \<in> set (subs (step e ev st))" "fst s = sid" by auto
    from step_subs_fresh [OF assms(1) s(1)] show False
      using s(2) assms(2,3) by auto
  qed
qed

lemma closed_run:
  "consistent e st \<Longrightarrow> sid < next_sub st \<Longrightarrow> sid \<notin> fst ` set (subs st) \<Longrightarrow>
   sid \<notin> fst ` set (subs (run e es st))"
proof (induction es arbitrary: st)
  case Nil
  then show ?case by (simp add: run_Nil)
next
  case (Cons ev es)
  have "consistent e (step e ev st)" using Cons.prems(1) by (rule cons_step)
  moreover have "sid < next_sub (step e ev st)" "sid \<notin> fst ` set (subs (step e ev st))"
    using closed_step [OF Cons.prems, of ev] by simp_all
  ultimately show ?case using Cons.IH by (simp add: run_Cons)
qed

lemma snapshot_closed: "sid \<notin> fst ` set (subs st) \<Longrightarrow> step e (Snapshot sid docs) st = st"
  by simp

lemma unsubscribed_is_deaf:
  assumes "consistent e st" and "sid < next_sub st" and "sid \<notin> fst ` set (subs st)"
  shows "step e (Snapshot sid docs) (run e es st) = run e es st"
  using closed_run [OF assms, of es] by (rule snapshot_closed)

lemma closed_by_step:
  assumes "consistent e st" and "s \<in> set (subs st)" and "s \<notin> set (subs (step e ev st))"
  shows "fst s < next_sub (step e ev st) \<and> fst s \<notin> fst ` set (subs (step e ev st))"
proof
  have n: "fst s < next_sub st" using assms(1,2) by (rule open_sub_numbered)
  then show "fst s < next_sub (step e ev st)"
    using step_next_sub_mono [OF assms(1), of ev] by simp
  have one: "subs st = [s]"
    using assms(2) at_most_one_sub [OF assms(1)] by (cases "subs st") auto
  show "fst s \<notin> fst ` set (subs (step e ev st))"
  proof
    assume "fst s \<in> fst ` set (subs (step e ev st))"
    then obtain s' where s': "s' \<in> set (subs (step e ev st))" "fst s' = fst s" by auto
    from step_subs_fresh [OF assms(1) s'(1)] show False
      using s' one n assms(3) by auto
  qed
qed

text \<open>
  Claim C6. The feed provider delivers to a subscription only while it is open
  (\<open>listening\<close>). In every state the component reaches: unmounting a mounted component
  closes the feed subscription, and after any further events, deliveries included, the
  message list is the list at the unmount; a subscription that was opened and has been
  unsubscribed is never open again, so a snapshot delivered on it at any later time
  leaves the whole state as it is; this holds in particular for the subscription that a
  step has just closed, the cleanup of the feed effect.
\<close>

theorem no_delivery_after_unsubscribe:
  assumes "st = run e es init_state"
  shows "(phase st = Mounted \<longrightarrow>
            subs (step e Unmount st) = [] \<and>
            (\<forall>es'. messages (run e es' (step e Unmount st)) = messages st)) \<and>
         (sid < next_sub st \<and> sid \<notin> fst ` set (subs st) \<longrightarrow>
            (\<forall>es' docs. step e (Snapshot sid docs) (run e es' st) = run e es' st)) \<and>
         (\<forall>s \<in> set (subs st). s \<notin> set (subs (step e ev st)) \<longrightarrow>
            (\<forall>es' docs. step e (Snapshot (fst s) docs) (run e es' (step e ev st)) =
               run e es' (step e ev st)))"
proof (intro conjI impI ballI allI)
  have c: "consistent e st" using assms by (simp add: cons_run)
  have c': "consistent e (step e ev st)" using c by (rule cons_step)
  {
    assume m: "phase st = Mounted"
    show "subs (step e Unmount st) = []"
      using step_unmount(1) [OF c] m by auto
    fix es'
    have "phase (step e Unmount st) = Unmounted" using m by simp
    then have "messages (run e es' (step e Unmount st)) = messages (step e Unmount st)"
      by (rule unmounted_run)
    then show "messages (run e es' (step e Unmount st)) = messages st"
      using m by simp
  }
  {
    fix es' docs
    assume "sid < next_sub st \<and> sid \<notin> fst ` set (subs st)"
    then show "step e (Snapshot sid docs) (run e es' st) = run e es' st"
      using unsubscribed_is_deaf [OF c] by blast
  }
  {
    fix s es' docs
    assume "s \<in> set (subs st)" "s \<notin> set (subs (step e ev st))"
    then have "fst s < next_sub (step e ev st)" "fst s \<notin> fst ` set (subs (step e ev st))"
      using closed_by_step [OF c, of s ev] by simp_all
    then show "step e (Snapshot (fst s) docs) (run e es' (step e ev st)) =
               run e es' (step e ev st)"
      by (rule unsubscribed_is_deaf [OF c'])
  }
qed

theorem no_delivery_after_unsubscribe_witness:
  "phase hello_shown = Mounted \<and>
   subs (step demo_env Unmount hello_shown) = [] \<and>
   messages (run demo_env [Snapshot 0 [m3_doc]] (step demo_env Unmount hello_shown)) =
     [to_message m1_doc, to_message m2_doc] \<and>
   0 < next_sub signed_out \<and> 0 \<notin> fst ` set (subs signed_out) \<and>
   step demo_env (Snapshot 0 [m1_doc]) (run demo_env [AuthStateChanged (Some u2)] signed_out) =
     run demo_env [AuthStateChanged (Some u2)] signed_out \<and>
   (0, \<lparr>q_path = ''artifacts/default-app-id/public/data/messages'',
        q_order_field = ''timestamp'', q_ascending = True\<rparr>) \<in> set (subs signed_in) \<and>
   step demo_env (Snapshot 0 [m1_doc]) (run demo_env [] (step demo_env (AuthStateChanged None) signed_in)) =
     run demo_env [] (step demo_env (AuthStateChanged None) signed_in)"
proof -
  have a: "phase hello_shown = Mounted"
    "messages hello_shown = [to_message m1_doc, to_message m2_doc]"
    by (simp_all add: hello_shown_eq signed_in_eq)
  have b: "0 < next_sub signed_out" "0 \<notin> fst ` set (subs signed_out)"
    by (simp_all add: signed_out_eq signed_in_eq)
  have o: "step demo_env (AuthStateChanged None) signed_in = signed_out"
    by (simp add: signed_out_def signed_in_def run_def)
  have d: "(0, \<lparr>q_path = ''artifacts/default-app-id/public/data/messages'',
        q_order_field = ''timestamp'', q_ascending = True\<rparr>) \<in> set (subs signed_in)"
    "subs signed_out = []"
    by (simp_all add: signed_in_eq signed_out_eq)
  show ?thesis
    using no_delivery_after_unsubscribe [OF hello_shown_def, of 0 Unmount]
      no_delivery_after_unsubscribe [OF signed_out_def, of 0 Unmount]
      no_delivery_after_unsubscribe [OF signed_in_def, of 0 "AuthStateChanged None"]
      a b d
    unfolding o by auto
qed

subsection \<open>The message list\<close>

lemma messages_step_other:
  "\<forall>sid docs. ev = Snapshot sid docs \<longrightarrow> sid \<notin> fst ` set (subs st) \<Longrightarrow>
   messages (step e ev st) = messages st"
  by (cases ev) (simp_all add: update_def)

lemma messages_step_delivered:
  "consistent e st \<Longrightarrow> sid \<in> fst ` set (subs st) \<Longrightarrow>
   messages (step e (Snapshot sid docs) st) = map to_message docs"
  using open_sub_live [of e st sid] snapshot_delivered [of sid st e docs] by simp

lemma messages_step:
  assumes "consistent e st" and "messages st = shown acc"
  shows "messages (step e ev st) =
     shown (case ev of
          Snapshot sid docs \<Rightarrow> if listening st sid then Some docs else acc
        | _ \<Rightarrow> acc)"
proof (cases "\<exists>sid docs. ev = Snapshot sid docs \<and> sid \<in> fst ` set (subs st)")
  case True
  then obtain sid docs where "ev = Snapshot sid docs" "sid \<in> fst ` set (subs st)" by blast
  then show ?thesis using messages_step_delivered [OF assms(1)] by (simp add: shown_def)
next
  case False
  then have "messages (step e ev st) = messages st"
    by (intro messages_step_other) blast
  then show ?thesis using False assms(2) by (cases ev) auto
qed

lemma messages_run:
  "consistent e st \<Longrightarrow> messages st = shown acc \<Longrightarrow>
   messages (run e es st) = shown (latest_delivered e st es acc)"
proof (induction es arbitrary: st acc)
  case Nil
  then show ?case by (simp add: run_Nil)
next
  case (Cons ev es)
  have "consistent e (step e ev st)" using Cons.prems(1) by (rule cons_step)
  moreover note messages_step [OF Cons.prems, of ev]
  ultimately show ?case using Cons.IH by (simp add: run_Cons)
qed

lemma open_sub_query:
  "consistent e st \<Longrightarrow> s \<in> set (subs st) \<Longrightarrow>
   snd s = \<lparr>q_path = ''artifacts/'' @ appId e @ ''/public/data/messages'',
            q_order_field = ''timestamp'', q_ascending = True\<rparr>"
  by (auto simp: consistent_def messages_query_def messages_path_def split: option.splits)

text \<open>
  Claim C2. \<open>latest_delivered\<close> follows the words of the claim: it walks a sequence of
  events and keeps the documents of the last snapshot that reached an open subscription.
  After every sequence of events the message list of the component is that snapshot,
  document by document in the delivered order, each document mapped to its id and its
  fields by \<open>to_message\<close> (and the empty list before any delivery): as many messages as
  documents, the message at each position made from the document at that position. Every
  open subscription was opened on the messages collection ordered by \<^verbatim>\<open>timestamp\<close>,
  ascending.
\<close>

theorem list_is_latest_snapshot:
  "messages (run e es init_state) = shown (latest_delivered e init_state es None) \<and>
   (\<forall>docs. latest_delivered e init_state es None = Some docs \<longrightarrow>
      length (messages (run e es init_state)) = length docs \<and>
      (\<forall>i < length docs. messages (run e es init_state) ! i =
         [''id'' \<mapsto> FStr (doc_id (docs ! i))] ++ doc_data (docs ! i))) \<and>
   (\<forall>s \<in> set (subs (run e es init_state)).
      snd s = \<lparr>q_path = ''artifacts/'' @ appId e @ ''/public/data/messages'',
               q_order_field = ''timestamp'', q_ascending = True\<rparr>)"
proof -
  have m: "messages (run e es init_state) = shown (latest_delivered e init_state es None)"
    by (rule messages_run [OF cons_init]) (simp add: shown_def init_state_def)
  then have "\<forall>docs. latest_delivered e init_state es None = Some docs \<longrightarrow>
      length (messages (run e es init_state)) = length docs \<and>
      (\<forall>i < length docs. messages (run e es init_state) ! i =
         [''id'' \<mapsto> FStr (doc_id (docs ! i))] ++ doc_data (docs ! i))"
    by (simp add: shown_def to_message_def)
  moreover have "\<forall>s \<in> set (subs (run e es init_state)).
      snd s = \<lparr>q_path = ''artifacts/'' @ appId e @ ''/public/data/messages'',
               q_order_field = ''timestamp'', q_ascending = True\<rparr>"
    using open_sub_query [OF cons_run] by blast
  ultimately show ?thesis using m by blast
qed

lemma two_snapshots_latest:
  "latest_delivered demo_env init_state two_snapshots None = Some [m1_doc, m2_doc]"
proof -
  have 1: "step demo_env (Mount InitOk) init_state = run demo_env [Mount InitOk] init_state"
    by (simp add: run_def)
  have 2: "step demo_env (AuthStateChanged (Some u1)) (run demo_env [Mount InitOk] init_state) = signed_in"
    by (simp add: signed_in_def run_def)
  have 3: "subs init_state = []" "subs (run demo_env [Mount InitOk] init_state) = []"
    by (simp_all add: step_defs)
  have 4: "step demo_env (Snapshot 0 ds) signed_in = signed_in\<lparr>messages := map to_message ds\<rparr>" for ds
    unfolding signed_in_eq by (simp add: step_defs)
  have 5: "step demo_env (Snapshot 7 ds) (signed_in\<lparr>messages := ms\<rparr>) = signed_in\<lparr>messages := ms\<rparr>" for ds ms
    unfolding signed_in_eq by simp
  have 6: "step demo_env (Snapshot 0 ds) (signed_in\<lparr>messages := ms\<rparr>) = signed_in\<lparr>messages := map to_message ds\<rparr>" for ds ms
    unfolding signed_in_eq by (simp add: step_defs)
  have 7: "subs (signed_in\<lparr>messages := ms\<rparr>) = subs signed_in" for ms by simp
  have 8: "fst ` set (subs signed_in) = {0}" by (simp add: signed_in_eq)
  show ?thesis
    unfolding two_snapshots_def
    by (simp add: 1 2 3 4 5 6 7 8 del: step.simps)
qed

theorem list_is_latest_snapshot_witness:
  "latest_delivered demo_env init_state two_snapshots None = Some [m1_doc, m2_doc] \<and>
   messages (run demo_env two_snapshots init_state) = [to_message m1_doc, to_message m2_doc] \<and>
   length (messages (run demo_env two_snapshots init_state)) = 2 \<and>
   subs (run demo_env two_snapshots init_state) =
     [(0, \<lparr>q_path = ''artifacts/default-app-id/public/data/messages'',
           q_order_field = ''timestamp'', q_ascending = True\<rparr>)]"
proof -
  have s: "subs (run demo_env two_snapshots init_state) =
     [(0, \<lparr>q_path = ''artifacts/default-app-id/public/data/messages'',
           q_order_field = ''timestamp'', q_ascending = True\<rparr>)]"
    by (simp add: two_snapshots_def demo_env_def step_defs)
  show ?thesis
    using list_is_latest_snapshot [of demo_env two_snapshots] two_snapshots_latest s
    by (simp add: shown_def)
qed

subsection \<open>Errors\<close>

lemma no_observer_step:
  assumes "phase st \<noteq> NotMounted" and "\<not> auth_observer st" and "\<not> isAuthReady st"
  shows "phase (step e ev st) \<noteq> NotMounted \<and> \<not> auth_observer (step e ev st) \<and>
         \<not> isAuthReady (step e ev st)"
  using assms
  by (cases ev) (auto simp: update_def unmount_def run_feed_cleanup_def split: option.splits)

lemma no_observer_run:
  "phase st \<noteq> NotMounted \<Longrightarrow> \<not> auth_observer st \<Longrightarrow> \<not> isAuthReady st \<Longrightarrow>
   \<not> isAuthReady (run e es st)"
proof (induction es arbitrary: st)
  case Nil
  then show ?case by (simp add: run_Nil)
next
  case (Cons ev es)
  from no_observer_step [OF Cons.prems, of e ev] Cons.IH show ?case
    by (simp add: run_Cons)
qed

lemma init_throws:
  "step e (Mount (InitThrows stage err)) init_state =
     init_state\<lparr>phase := Mounted,
       db := (if stage = AtOnAuthStateChanged then Some Firestore else None),
       auth := (if stage = AtOnAuthStateChanged then Some FirebaseAuth else None),
       feed_deps := Some (if stage = AtOnAuthStateChanged then Some Firestore else None, None, False),
       console := [(''Failed to initialize Firebase:'', err)]\<rparr>"
  by (cases stage) (simp_all add: step_defs)

lemma snapshot_error_logged:
  "sid \<in> fst ` set (subs st) \<Longrightarrow>
   step e (SnapshotError sid err) st =
     st\<lparr>console := console st @ [(''Error fetching messages:'', err)]\<rparr>"
  by (simp add: console_error_def)

text \<open>
  Claim C7, as stated, fails for a failed sign-in: the rejection is logged, but the
  auth-state callback is registered all the same and sets the ready flag when the
  provider reports its initial state, here a null identity. The session is ready and the
  chat screen is shown with \<^verbatim>\<open>N/A\<close> as the user id.
\<close>

theorem errors_logged_in_place_counterexample:
  "requests (run demo_env signin_refused init_state) = [SignInAnonymously] \<and>
   console (run demo_env signin_refused init_state) =
     [(''Firebase authentication error:'', ''auth/admin-restricted-operation'')] \<and>
   isAuthReady (run demo_env signin_refused init_state) \<and>
   render demo_env (run demo_env signin_refused init_state) =
     Inr (ChatScreen ''N/A'' (Placeholder ''No messages yet. Start chatting!'') [])"
  by (simp add: signin_refused_def demo_env_def step_defs render_def header_uid_def)

text \<open>
  Claim C7, amended. Each of the three kinds of error is logged where it is caught and
  changes nothing but the console (and the record that the promise has settled): an
  exception thrown by the init effect, after which the auth observer is not registered
  and the ready flag stays false whatever happens later; a rejected sign-in; an error of
  an open subscription, which leaves the message list, the subscription and the
  requests as they are; a rejected \<^verbatim>\<open>addDoc\<close>.
\<close>

theorem errors_logged_in_place:
  "(console (step e (Mount (InitThrows stage err)) init_state) =
      [(''Failed to initialize Firebase:'', err)] \<and>
    messages (step e (Mount (InitThrows stage err)) init_state) = [] \<and>
    newMessage (step e (Mount (InitThrows stage err)) init_state) = [] \<and>
    user (step e (Mount (InitThrows stage err)) init_state) = None \<and>
    (\<forall>es. \<not> isAuthReady (run e es (step e (Mount (InitThrows stage err)) init_state)))) \<and>
   (i < length (requests st) \<and> i \<notin> set (settled st) \<and>
    (requests st ! i = SignInAnonymously \<or> (\<exists>t. requests st ! i = SignInWithCustomToken t)) \<longrightarrow>
      step e (Settled i (Rejected err)) st =
        st\<lparr>settled := i # settled st,
           console := console st @ [(''Firebase authentication error:'', err)]\<rparr>) \<and>
   (sid \<in> fst ` set (subs st) \<longrightarrow>
      step e (SnapshotError sid err) st =
        st\<lparr>console := console st @ [(''Error fetching messages:'', err)]\<rparr>) \<and>
   (i < length (requests st) \<and> i \<notin> set (settled st) \<and> requests st ! i = AddDoc p fs \<longrightarrow>
      step e (Settled i (Rejected err)) st =
        st\<lparr>settled := i # settled st,
           console := console st @ [(''Error sending message:'', err)]\<rparr>)"
proof -
  let ?s = "step e (Mount (InitThrows stage err)) init_state"
  have f: "console ?s = [(''Failed to initialize Firebase:'', err)]" "messages ?s = []"
    "newMessage ?s = []" "user ?s = None"
    "phase ?s \<noteq> NotMounted" "\<not> auth_observer ?s" "\<not> isAuthReady ?s"
    unfolding init_throws by (simp_all add: init_state_def)
  have "\<forall>es. \<not> isAuthReady (run e es ?s)"
    using no_observer_run [OF f(5,6,7)] by blast
  moreover have "i < length (requests st) \<and> i \<notin> set (settled st) \<and>
    (requests st ! i = SignInAnonymously \<or> (\<exists>t. requests st ! i = SignInWithCustomToken t)) \<longrightarrow>
      step e (Settled i (Rejected err)) st =
        st\<lparr>settled := i # settled st,
           console := console st @ [(''Firebase authentication error:'', err)]\<rparr>"
    using settle_rejected [of i st e err] by auto
  moreover have "i < length (requests st) \<and> i \<notin> set (settled st) \<and> requests st ! i = AddDoc p fs \<longrightarrow>
      step e (Settled i (Rejected err)) st =
        st\<lparr>settled := i # settled st,
           console := console st @ [(''Error sending message:'', err)]\<rparr>"
    using settle_rejected [of i st e err] by auto
  moreover have "sid \<in> fst ` set (subs st) \<longrightarrow>
      step e (SnapshotError sid err) st =
        st\<lparr>console := console st @ [(''Error fetching messages:'', err)]\<rparr>"
    using snapshot_error_logged by blast
  ultimately show ?thesis using f(1-4) by blast
qed

theorem errors_logged_in_place_witness:
  "0 < length (requests hello_sent) \<and> 0 \<notin> set (settled hello_sent) \<and>
   requests hello_sent ! 0 = SignInAnonymously \<and>
   step demo_env (Settled 0 (Rejected ''network'')) hello_sent =
     hello_sent\<lparr>settled := [0], console := [(''Firebase authentication error:'', ''network'')]\<rparr> \<and>
   0 \<in> fst ` set (subs hello_sent) \<and>
   step demo_env (SnapshotError 0 ''network'') hello_sent =
     hello_sent\<lparr>console := [(''Error fetching messages:'', ''network'')]\<rparr> \<and>
   \<not> isAuthReady (run demo_env [AuthStateChanged None, Submit]
       (step demo_env (Mount (InitThrows AtGetAuth ''network'')) init_state))"
proof -
  have h: "0 < length (requests hello_sent)" "0 \<notin> set (settled hello_sent)"
    "requests hello_sent ! 0 = SignInAnonymously" "0 \<in> fst ` set (subs hello_sent)"
    "settled hello_sent = []" "console hello_sent = []"
    by (simp_all add: hello_sent_eq)
  show ?thesis
    using errors_logged_in_place [where e = demo_env and stage = AtGetAuth
        and err = "''network''" and i = 0 and st = hello_sent and sid = 0] h
    by simp
qed

end
